theory Spec2Isabelle
  imports Complex_Main
begin

section \<open>The multi-source resolution engine of tk4-downloader\<close>

text \<open>
  A shallow embedding of the class \<^verbatim>\<open>TikTokDownloader\<close>: its options, its result cache,
  its statistics object, the retrying transport, the fan-out over the provider adapters,
  the quality arbiter and the statistics snapshots.

  What lies outside the class is a parameter of the model: the clock (\<^verbatim>\<open>Date.now()\<close>),
  the MD5 digest of \<^verbatim>\<open>generateCacheKey\<close>, the outcome of every network attempt and of
  every adapter call raced against the timeout. Listeners attached from outside the class
  are not modelled; the two listeners the constructor installs (\<^verbatim>\<open>error\<close> and
  \<^verbatim>\<open>success\<close>) are. One call runs at a time: calls of \<^verbatim>\<open>downloadVideo\<close> that overlap
  in time are not modelled.

  Of the options, \<^verbatim>\<open>maxRetries\<close>, \<^verbatim>\<open>preferredQuality\<close>, \<^verbatim>\<open>cacheResults\<close> and
  \<^verbatim>\<open>maxCacheAge\<close> are kept. \<^verbatim>\<open>timeout\<close>, \<^verbatim>\<open>proxyUrl\<close> and \<^verbatim>\<open>headers\<close> only shape
  the requests and the timer, whose outcomes are parameters; \<^verbatim>\<open>debug\<close> only decides
  whether \<^verbatim>\<open>debug\<close> events are emitted; the remaining options are not read by the class.
\<close>

subsection \<open>JavaScript numbers\<close>

text \<open>
  A JavaScript number is a double. Finite values are idealised as rationals: this is
  exact for the counters and for millisecond timestamps (integers below \<open>2^53\<close>), while the
  running means are the exact quotients, without rounding. The three special values are
  kept, since \<^verbatim>\<open>undefined++\<close> and a division by zero produce them. The sign of zero is not
  tracked.
\<close>

datatype jsnum = Num rat | NaN | PosInf | NegInf

fun js_neg :: "jsnum \<Rightarrow> jsnum" where
  "js_neg (Num a) = Num (- a)"
| "js_neg NaN = NaN"
| "js_neg PosInf = NegInf"
| "js_neg NegInf = PosInf"

fun js_add :: "jsnum \<Rightarrow> jsnum \<Rightarrow> jsnum" where
  "js_add (Num a) (Num b) = Num (a + b)"
| "js_add NaN _ = NaN"
| "js_add _ NaN = NaN"
| "js_add PosInf NegInf = NaN"
| "js_add NegInf PosInf = NaN"
| "js_add PosInf _ = PosInf"
| "js_add _ PosInf = PosInf"
| "js_add NegInf _ = NegInf"
| "js_add _ NegInf = NegInf"

definition js_sub :: "jsnum \<Rightarrow> jsnum \<Rightarrow> jsnum" where
  "js_sub a b = js_add a (js_neg b)"

fun js_mul :: "jsnum \<Rightarrow> jsnum \<Rightarrow> jsnum" where
  "js_mul (Num a) (Num b) = Num (a * b)"
| "js_mul NaN _ = NaN"
| "js_mul _ NaN = NaN"
| "js_mul PosInf (Num b) = (if b = 0 then NaN else if 0 < b then PosInf else NegInf)"
| "js_mul NegInf (Num b) = (if b = 0 then NaN else if 0 < b then NegInf else PosInf)"
| "js_mul (Num a) PosInf = (if a = 0 then NaN else if 0 < a then PosInf else NegInf)"
| "js_mul (Num a) NegInf = (if a = 0 then NaN else if 0 < a then NegInf else PosInf)"
| "js_mul PosInf PosInf = PosInf"
| "js_mul PosInf NegInf = NegInf"
| "js_mul NegInf PosInf = NegInf"
| "js_mul NegInf NegInf = PosInf"

fun js_div :: "jsnum \<Rightarrow> jsnum \<Rightarrow> jsnum" where
  "js_div (Num a) (Num b) =
     (if b = 0 then (if a = 0 then NaN else if 0 < a then PosInf else NegInf)
      else Num (a / b))"
| "js_div NaN _ = NaN"
| "js_div _ NaN = NaN"
| "js_div (Num a) PosInf = Num 0"
| "js_div (Num a) NegInf = Num 0"
| "js_div PosInf (Num b) = (if 0 \<le> b then PosInf else NegInf)"
| "js_div NegInf (Num b) = (if 0 \<le> b then NegInf else PosInf)"
| "js_div PosInf _ = NaN"
| "js_div NegInf _ = NaN"

text \<open>The relational operator \<^verbatim>\<open><\<close>: false as soon as one side is not-a-number.\<close>

fun js_lt :: "jsnum \<Rightarrow> jsnum \<Rightarrow> bool" where
  "js_lt (Num a) (Num b) = (a < b)"
| "js_lt NaN _ = False"
| "js_lt _ NaN = False"
| "js_lt (Num a) PosInf = True"
| "js_lt NegInf (Num b) = True"
| "js_lt NegInf PosInf = True"
| "js_lt (Num a) NegInf = False"
| "js_lt PosInf _ = False"
| "js_lt NegInf NegInf = False"

text \<open>\<^verbatim>\<open>Math.round\<close>: halves round towards plus infinity.\<close>

fun js_round :: "jsnum \<Rightarrow> jsnum" where
  "js_round (Num a) = Num (of_int \<lfloor>a + 1 / 2\<rfloor>)"
| "js_round x = x"

text \<open>
  A property that may be missing from an object is an \<open>option\<close>; reading a missing
  property gives \<^verbatim>\<open>undefined\<close>, which arithmetic converts to not-a-number.
\<close>

fun to_number :: "jsnum option \<Rightarrow> jsnum" where
  "to_number None = NaN"
| "to_number (Some n) = n"

definition js_inc :: "jsnum \<Rightarrow> jsnum" where
  "js_inc n = js_add n (Num 1)"

text \<open>Truthiness of a number: zero and not-a-number are falsy.\<close>

fun truthy_num :: "jsnum \<Rightarrow> bool" where
  "truthy_num (Num a) = (a \<noteq> 0)"
| "truthy_num NaN = False"
| "truthy_num _ = True"

definition ms :: "int \<Rightarrow> jsnum" where
  "ms t = Num (of_int t)"

subsection \<open>Data model\<close>

datatype exn = TypeError string | Error string

fun message :: "exn \<Rightarrow> string" where
  "message (TypeError m) = m"
| "message (Error m) = m"

text \<open>
  The \<^verbatim>\<open>TypeError\<close> of reading a property of \<^verbatim>\<open>undefined\<close>. The wording of its message
  belongs to the JavaScript engine; no branch of the class inspects it.
\<close>

definition undefined_read :: exn where
  "undefined_read = TypeError ''Cannot read properties of undefined''"

text \<open>
  The quality of a candidate is one of the three keys of \<^verbatim>\<open>qualityMap\<close>; the adapters
  produce \<^verbatim>\<open>'high'\<close> and \<^verbatim>\<open>'medium'\<close>. The preferred quality of the options is any
  string.
\<close>

datatype quality_tier = Low | Medium | High

fun tier_name :: "quality_tier \<Rightarrow> string" where
  "tier_name High = ''high''"
| "tier_name Medium = ''medium''"
| "tier_name Low = ''low''"

text \<open>
  What an adapter returns on success. A field the provider's answer did not carry is
  \<^verbatim>\<open>undefined\<close>, here \<open>None\<close>.
\<close>

record candidate =
  videoUrl :: "string option"
  author :: "string option"
  desc :: "string option"
  quality :: quality_tier
  source :: string

record options =
  maxRetries :: int
  preferredQuality :: string
  cacheResults :: bool
  maxCacheAge :: jsnum

record cache_entry =
  timestamp :: int
  data :: candidate

record api_usage =
  calls :: jsnum
  successes :: jsnum
  failures :: jsnum
  averageResponseTime :: jsnum

record error_entry =
  err_timestamp :: int
  err_error :: "string option"
  err_url :: "string option"

text \<open>
  The statistics object. \<^verbatim>\<open>resetStats\<close> replaces it by an object with four properties
  only, so the five others are optional.
\<close>

record stats =
  totalDownloads :: jsnum
  successfulDownloads :: jsnum
  failedDownloads :: jsnum
  averageSpeed :: jsnum
  totalSize :: "jsnum option"
  cacheSaves :: "jsnum option"
  apiUsage :: "(string \<rightharpoonup> api_usage) option"
  errors :: "error_entry list option"
  startTime :: "jsnum option"

record engine =
  opts :: options
  cache :: "string \<rightharpoonup> cache_entry"
  stats :: stats

subsection \<open>Construction\<close>

text \<open>The keys of \<^verbatim>\<open>this.apis\<close>, in insertion order.\<close>

definition apis :: "string list" where
  "apis = [''snaptik'', ''tikwm'', ''tikmate'', ''savett'', ''tikdown'', ''tiktokapi'',
           ''dlpanda'', ''ssstik'']"

definition fresh_usage :: api_usage where
  "fresh_usage = \<lparr>calls = Num 0, successes = Num 0, failures = Num 0,
                  averageResponseTime = Num 0\<rparr>"

text \<open>The options a caller may pass; \<open>None\<close> is a property left out.\<close>

record raw_options =
  raw_maxRetries :: "int option"
  raw_preferredQuality :: "string option"
  raw_cacheResults :: "bool option"
  raw_maxCacheAge :: "jsnum option"

definition no_options :: raw_options where
  "no_options = \<lparr>raw_maxRetries = None, raw_preferredQuality = None,
                 raw_cacheResults = None, raw_maxCacheAge = None\<rparr>"

text \<open>
  \<^verbatim>\<open>a || d\<close> takes the default for every falsy \<open>a\<close> (zero, the empty string,
  not-a-number); \<^verbatim>\<open>a ?? d\<close> only for a missing one.
\<close>

definition constructor :: "raw_options \<Rightarrow> int \<Rightarrow> engine" where
  "constructor raw now =
     \<lparr>opts = \<lparr>
        maxRetries = (case raw_maxRetries raw of
                        None \<Rightarrow> 3 | Some k \<Rightarrow> if k = 0 then 3 else k),
        preferredQuality = (case raw_preferredQuality raw of
                        None \<Rightarrow> ''high'' | Some q \<Rightarrow> if q = [] then ''high'' else q),
        cacheResults = (case raw_cacheResults raw of None \<Rightarrow> True | Some b \<Rightarrow> b),
        maxCacheAge = (case raw_maxCacheAge raw of
                        None \<Rightarrow> Num 3600000
                      | Some a \<Rightarrow> if truthy_num a then a else Num 3600000)\<rparr>,
      cache = Map.empty,
      stats = \<lparr>
        totalDownloads = Num 0,
        successfulDownloads = Num 0,
        failedDownloads = Num 0,
        averageSpeed = Num 0,
        totalSize = Some (Num 0),
        cacheSaves = Some (Num 0),
        apiUsage = Some (map_of (map (\<lambda>api. (api, fresh_usage)) apis)),
        errors = Some [],
        startTime = Some (ms now)\<rparr>\<rparr>"

subsection \<open>Statistics: reset and snapshots\<close>

definition resetStats :: "engine \<Rightarrow> engine" where
  "resetStats e = e\<lparr>stats :=
     \<lparr>totalDownloads = Num 0,
      successfulDownloads = Num 0,
      failedDownloads = Num 0,
      averageSpeed = Num 0,
      totalSize = None,
      cacheSaves = None,
      apiUsage = None,
      errors = None,
      startTime = None\<rparr>\<rparr>"

record basic_stats =
  bs_stats :: stats
  bs_successRate :: jsnum
  bs_averageSpeedMs :: jsnum

definition getStats :: "engine \<Rightarrow> basic_stats" where
  "getStats e =
     \<lparr>bs_stats = stats e,
      bs_successRate =
        js_mul (js_div (successfulDownloads (stats e)) (totalDownloads (stats e))) (Num 100),
      bs_averageSpeedMs = js_round (averageSpeed (stats e))\<rparr>"

text \<open>
  The detailed snapshot. \<^verbatim>\<open>this.stats.errors.slice(-5)\<close> reads a property of
  \<^verbatim>\<open>this.stats.errors\<close>, which throws a \<^verbatim>\<open>TypeError\<close> when the error log is missing.
  \<^verbatim>\<open>totalSizeFormatted\<close> is a string rendering of \<^verbatim>\<open>totalSize\<close> by \<^verbatim>\<open>formatBytes\<close>,
  which contains no operation that can throw; the rendering is left out of the snapshot.
\<close>

record detailed_stats =
  ds_stats :: stats
  ds_uptime :: jsnum
  ds_successRate :: jsnum
  ds_averageSpeedMs :: jsnum
  ds_cacheEfficiency :: jsnum
  ds_apiPerformance :: "(string \<rightharpoonup> api_usage) option"
  ds_lastErrors :: "error_entry list"

definition getDetailedStats :: "engine \<Rightarrow> int \<Rightarrow> exn + detailed_stats" where
  "getDetailedStats e now =
     (let uptime = js_sub (ms now) (to_number (startTime (stats e)));
          successRate =
            js_mul (js_div (successfulDownloads (stats e)) (totalDownloads (stats e))) (Num 100);
          averageSpeedMs = js_round (averageSpeed (stats e));
          cacheEfficiency =
            js_mul (js_div (to_number (cacheSaves (stats e))) (totalDownloads (stats e))) (Num 100)
      in case errors (stats e) of
           None \<Rightarrow> Inl undefined_read
         | Some es \<Rightarrow>
             Inr \<lparr>ds_stats = stats e,
                  ds_uptime = uptime,
                  ds_successRate = successRate,
                  ds_averageSpeedMs = averageSpeedMs,
                  ds_cacheEfficiency = cacheEfficiency,
                  ds_apiPerformance = apiUsage (stats e),
                  ds_lastErrors = drop (length es - 5) es\<rparr>)"

subsection \<open>The retrying transport\<close>

text \<open>
  \<^verbatim>\<open>fetchWithRetry\<close>. The network is a function from the attempt index to the outcome of
  that attempt: \<open>Inl err\<close> when \<^verbatim>\<open>axios\<close> rejects, \<open>Inr response\<close> when it answers. The
  model records what the loop does: the attempts it makes and the delays it sleeps, in
  milliseconds. \<^verbatim>\<open>lastError\<close> starts as \<^verbatim>\<open>null\<close> (\<open>None\<close>) and is what the function
  throws after the loop. \<^verbatim>\<open>maxRetries\<close> is an integer; the constructor replaces zero by
  three, and with a negative value the loop body never runs.
\<close>

datatype event = Attempt nat | Sleep nat

function fetch_loop ::
  "int \<Rightarrow> (nat \<Rightarrow> 'e + 'r) \<Rightarrow> nat \<Rightarrow> 'e option \<Rightarrow> event list \<Rightarrow> ('e option + 'r) \<times> event list"
where
  "fetch_loop retries net i lastError tr =
     (if int i < retries then
        (case net i of
           Inr response \<Rightarrow> (Inr response, tr @ [Attempt i])
         | Inl err \<Rightarrow>
             (if int i < retries - 1
              then fetch_loop retries net (Suc i) (Some err) (tr @ [Attempt i, Sleep (2 ^ i * 1000)])
              else fetch_loop retries net (Suc i) (Some err) (tr @ [Attempt i])))
      else (Inl lastError, tr))"
  by pat_completeness auto
termination
  by (relation "measure (\<lambda>(retries, net, i, lastError, tr). nat (retries - int i))") auto

declare fetch_loop.simps [simp del]

definition fetchWithRetry ::
  "engine \<Rightarrow> (nat \<Rightarrow> 'e + 'r) \<Rightarrow> ('e option + 'r) \<times> event list" where
  "fetchWithRetry e net = fetch_loop (maxRetries (opts e)) net 0 None []"

definition attempts :: "event list \<Rightarrow> nat list" where
  "attempts tr = concat (map (\<lambda>ev. case ev of Attempt i \<Rightarrow> [i] | Sleep d \<Rightarrow> []) tr)"

definition sleeps :: "event list \<Rightarrow> nat list" where
  "sleeps tr = concat (map (\<lambda>ev. case ev of Attempt i \<Rightarrow> [] | Sleep d \<Rightarrow> [d]) tr)"

text \<open>
  The trace of a run in which every one of \<open>k\<close> attempts fails: attempt \<open>i\<close>, then a sleep
  of \<open>2^i\<close> seconds unless it was the last attempt.
\<close>

definition backoff_trace :: "nat \<Rightarrow> event list" where
  "backoff_trace k =
     concat (map (\<lambda>i. if i < k - 1 then [Attempt i, Sleep (2 ^ i * 1000)] else [Attempt i])
                 [0..<k])"

subsection \<open>The quality arbiter\<close>

definition qualityMap :: "quality_tier \<Rightarrow> int" where
  "qualityMap q = (case q of High \<Rightarrow> 3 | Medium \<Rightarrow> 2 | Low \<Rightarrow> 1)"

definition sourceOrder :: "string list" where
  "sourceOrder = [''snaptik'', ''tikwm'', ''tikdown'', ''savett'', ''webscraping'']"

text \<open>\<^verbatim>\<open>Array.prototype.indexOf\<close>: the first position of the element, \<open>-1\<close> when absent.\<close>

fun indexOf :: "string list \<Rightarrow> string \<Rightarrow> int" where
  "indexOf [] x = - 1"
| "indexOf (y # ys) x =
     (if y = x then 0 else (let i = indexOf ys x in if i < 0 then - 1 else i + 1))"

text \<open>The comparison function handed to \<^verbatim>\<open>results.sort\<close>.\<close>

definition compare_results :: "candidate \<Rightarrow> candidate \<Rightarrow> int" where
  "compare_results a b =
     (if qualityMap (quality b) \<noteq> qualityMap (quality a)
      then qualityMap (quality b) - qualityMap (quality a)
      else indexOf sourceOrder (source a) - indexOf sourceOrder (source b))"

text \<open>
  \<^verbatim>\<open>Array.prototype.sort\<close> is stable and, for a comparison function that is a total
  preorder, returns the elements in that order; the result is then the stable sorted
  arrangement, whatever algorithm the engine runs. The model computes it by insertion:
  an element goes before the first later element that does not precede it.
\<close>

fun insert_by :: "('a \<Rightarrow> 'a \<Rightarrow> int) \<Rightarrow> 'a \<Rightarrow> 'a list \<Rightarrow> 'a list" where
  "insert_by cmp x [] = [x]"
| "insert_by cmp x (y # ys) =
     (if cmp x y \<le> 0 then x # y # ys else y # insert_by cmp x ys)"

definition sort_by :: "('a \<Rightarrow> 'a \<Rightarrow> int) \<Rightarrow> 'a list \<Rightarrow> 'a list" where
  "sort_by cmp xs = foldr (insert_by cmp) xs []"

text \<open>
  \<^verbatim>\<open>selectBestQuality\<close>. On an empty array \<^verbatim>\<open>results[0]\<close> is \<^verbatim>\<open>undefined\<close> and the
  template string of the final \<^verbatim>\<open>debug\<close> call reads \<^verbatim>\<open>selected.source\<close>, which throws.
\<close>

definition selectBestQuality :: "engine \<Rightarrow> candidate list \<Rightarrow> exn + candidate" where
  "selectBestQuality e results =
     (let ordered = sort_by compare_results results in
      case ordered of
        [] \<Rightarrow> Inl undefined_read
      | selected # rest \<Rightarrow>
          (if preferredQuality (opts e) \<noteq> ''high''
           then (case find (\<lambda>r. tier_name (quality r) = preferredQuality (opts e)) ordered of
                   Some r \<Rightarrow> Inr r
                 | None \<Rightarrow> Inr selected)
           else Inr selected))"

subsection \<open>The fan-out over the provider adapters\<close>

text \<open>
  The adapters are the seven entries of \<^verbatim>\<open>apiMethods\<close>. Each adapter body catches every
  error of its request and tags what it returns with a fixed quality and its own name, so
  an adapter is determined by the fields it could read from the provider's answer.
\<close>

definition apiMethods :: "string list" where
  "apiMethods = [''snaptik'', ''tikwm'', ''tikdown'', ''savett'', ''ssstik'', ''dlpanda'',
                 ''webscraping'']"

record answer =
  ans_videoUrl :: "string option"
  ans_author :: "string option"
  ans_desc :: "string option"

definition adapter_result :: "string \<Rightarrow> answer \<Rightarrow> candidate" where
  "adapter_result name ans =
     \<lparr>videoUrl = ans_videoUrl ans, author = ans_author ans, desc = ans_desc ans,
      quality = (if name = ''webscraping'' then Medium else High),
      source = name\<rparr>"

text \<open>
  What \<^verbatim>\<open>Promise.race([fn(), timeout])\<close> settles to in the unit of one adapter: the adapter
  returned an object (\<open>Fulfilled (Some ans)\<close>), it returned \<^verbatim>\<open>null\<close> or \<^verbatim>\<open>undefined\<close>
  (\<open>Fulfilled None\<close>), or the race rejected, which is what the timer does with
  \<^verbatim>\<open>Error('Timeout')\<close>.
\<close>

datatype settled = Fulfilled "answer option" | Rejected exn

definition Timeout :: settled where
  "Timeout = Rejected (Error ''Timeout'')"

text \<open>The readings of the clock and the behaviour of the providers during one call.\<close>

record env =
  clock_start :: int
  clock_lookup :: int
  race :: "string \<Rightarrow> settled"
  elapsed :: "string \<Rightarrow> int"
  clock_store :: int
  clock_end :: int
  clock_error :: int

text \<open>
  \<^verbatim>\<open>this.stats.apiUsage[name]\<close> followed by a property access: a \<^verbatim>\<open>TypeError\<close> when
  \<^verbatim>\<open>apiUsage\<close> is missing from the statistics object, and when it has no entry for the
  name.
\<close>

definition lookup_usage :: "stats \<Rightarrow> string \<Rightarrow> exn + api_usage" where
  "lookup_usage s name =
     (case apiUsage s of
        None \<Rightarrow> Inl undefined_read
      | Some m \<Rightarrow> (case m name of None \<Rightarrow> Inl undefined_read | Some u \<Rightarrow> Inr u))"

definition update_usage :: "string \<Rightarrow> (api_usage \<Rightarrow> api_usage) \<Rightarrow> stats \<Rightarrow> exn + stats" where
  "update_usage name f s =
     (case lookup_usage s name of
        Inl ex \<Rightarrow> Inl ex
      | Inr u \<Rightarrow> Inr (s\<lparr>apiUsage := map_option (\<lambda>m. m(name \<mapsto> f u)) (apiUsage s)\<rparr>))"

text \<open>The incremental mean, computed after the success counter has been incremented.\<close>

definition record_success :: "jsnum \<Rightarrow> api_usage \<Rightarrow> api_usage" where
  "record_success duration u =
     (let u1 = u\<lparr>successes := js_inc (successes u)\<rparr> in
      u1\<lparr>averageResponseTime :=
           js_div (js_add (js_mul (averageResponseTime u1) (js_sub (successes u1) (Num 1)))
                          duration)
                  (successes u1)\<rparr>)"

text \<open>
  The result of one unit as \<^verbatim>\<open>Promise.allSettled\<close> sees it: fulfilled with a candidate or
  with \<^verbatim>\<open>null\<close>, or rejected.
\<close>

datatype unit_result = Value "candidate option" | Failure exn

record fan =
  fan_stats :: stats
  fan_errors :: "string list"
  fan_invoked :: "string list"
  fan_results :: "unit_result list"

text \<open>The \<^verbatim>\<open>catch\<close> block of a unit. Its own first statement can throw.\<close>

definition unit_catch :: "string \<Rightarrow> exn \<Rightarrow> fan \<Rightarrow> fan" where
  "unit_catch name err st =
     (case update_usage name (\<lambda>u. u\<lparr>failures := js_inc (failures u)\<rparr>) (fan_stats st) of
        Inl ex \<Rightarrow> st\<lparr>fan_results := fan_results st @ [Failure ex]\<rparr>
      | Inr s' \<Rightarrow>
          st\<lparr>fan_stats := s',
             fan_errors := fan_errors st @ [name @ '': '' @ message err],
             fan_results := fan_results st @ [Value None]\<rparr>)"

text \<open>
  One unit: the call counter, then the adapter raced against the timeout
  (\<open>fan_invoked\<close> records that \<^verbatim>\<open>fn()\<close> was called), then the success accounting.
\<close>

definition run_unit :: "env \<Rightarrow> string \<Rightarrow> fan \<Rightarrow> fan" where
  "run_unit w name st =
     (case update_usage name (\<lambda>u. u\<lparr>calls := js_inc (calls u)\<rparr>) (fan_stats st) of
        Inl ex \<Rightarrow> unit_catch name ex st
      | Inr s1 \<Rightarrow>
          (let st1 = st\<lparr>fan_stats := s1, fan_invoked := fan_invoked st @ [name]\<rparr> in
           case race w name of
             Rejected err \<Rightarrow> unit_catch name err st1
           | Fulfilled None \<Rightarrow> st1\<lparr>fan_results := fan_results st1 @ [Value None]\<rparr>
           | Fulfilled (Some ans) \<Rightarrow>
               (case update_usage name (record_success (ms (elapsed w name))) s1 of
                  Inl ex \<Rightarrow> unit_catch name ex st1
                | Inr s2 \<Rightarrow>
                    st1\<lparr>fan_stats := s2,
                        fan_results :=
                          fan_results st1 @ [Value (Some (adapter_result name ans))]\<rparr>)))"

text \<open>
  The units touch the statistics entry of their own adapter only, and
  \<^verbatim>\<open>Promise.allSettled\<close> returns the results in the order of \<^verbatim>\<open>apiMethods\<close>, so the
  outcome of the fan-out does not depend on the order in which the units settle, except
  for the order of the lines of the local \<^verbatim>\<open>errors\<close> array. The model runs the units in
  the order of the list.
\<close>

fun fanout :: "env \<Rightarrow> string list \<Rightarrow> fan \<Rightarrow> fan" where
  "fanout w [] st = st"
| "fanout w (name # names) st = fanout w names (run_unit w name st)"

definition successfulResults :: "unit_result list \<Rightarrow> candidate list" where
  "successfulResults rs =
     concat (map (\<lambda>r. case r of Value (Some c) \<Rightarrow> [c] | Value None \<Rightarrow> [] | Failure ex \<Rightarrow> []) rs)"

fun join_lines :: "string list \<Rightarrow> string" where
  "join_lines [] = []"
| "join_lines [l] = l"
| "join_lines (l # ls) = l @ [CHR 0x0A] @ join_lines ls"

subsection \<open>Resolution with the result cache\<close>

text \<open>
  The result of running a method: what it returns or throws, the engine afterwards, and
  the adapters whose function was called, in order.
\<close>

record 'a run =
  outcome :: "exn + 'a"
  final :: engine
  invoked :: "string list"

text \<open>
  The part of \<^verbatim>\<open>getVideoMetadata\<close> after the cache check. \<^verbatim>\<open>getVideoId\<close> is awaited
  first; it catches its own errors and its result is not used.
\<close>

definition resolve_fresh :: "string \<Rightarrow> env \<Rightarrow> engine \<Rightarrow> candidate run" where
  "resolve_fresh cacheKey w e =
     (let st = fanout w apiMethods
                 \<lparr>fan_stats = stats e, fan_errors = [], fan_invoked = [], fan_results = []\<rparr>;
          e1 = e\<lparr>stats := fan_stats st\<rparr>;
          found = successfulResults (fan_results st)
      in if found = []
         then \<lparr>outcome = Inl (Error (''All methods failed:'' @ [CHR 0x0A] @ join_lines (fan_errors st))),
               final = e1, invoked = fan_invoked st\<rparr>
         else (case selectBestQuality e1 found of
                 Inl ex \<Rightarrow> \<lparr>outcome = Inl ex, final = e1, invoked = fan_invoked st\<rparr>
               | Inr bestResult \<Rightarrow>
                   \<lparr>outcome = Inr bestResult,
                    final = (if cacheResults (opts e1)
                             then e1\<lparr>cache := (cache e1)(cacheKey \<mapsto>
                                        \<lparr>timestamp = clock_store w, data = bestResult\<rparr>)\<rparr>
                             else e1),
                    invoked = fan_invoked st\<rparr>))"

text \<open>\<^verbatim>\<open>getVideoMetadata\<close>; \<open>md5\<close> is the digest of \<^verbatim>\<open>generateCacheKey\<close>.\<close>

definition getVideoMetadata ::
  "(string \<Rightarrow> string) \<Rightarrow> env \<Rightarrow> string \<Rightarrow> engine \<Rightarrow> candidate run" where
  "getVideoMetadata md5 w url e =
     (let cacheKey = md5 url in
      if cacheResults (opts e) \<and> cache e cacheKey \<noteq> None
      then (case cache e cacheKey of
              None \<Rightarrow> resolve_fresh cacheKey w e
            | Some cached \<Rightarrow>
                (if js_lt (js_sub (ms (clock_lookup w)) (ms (timestamp cached)))
                          (maxCacheAge (opts e))
                 then \<lparr>outcome = Inr (data cached),
                       final = e\<lparr>stats := (stats e)\<lparr>cacheSaves :=
                                  Some (js_inc (to_number (cacheSaves (stats e))))\<rparr>\<rparr>,
                       invoked = []\<rparr>
                 else resolve_fresh cacheKey w e))
      else resolve_fresh cacheKey w e)"

text \<open>\<^verbatim>\<open>cleanCache\<close>, the periodic sweep.\<close>

definition cleanCache :: "int \<Rightarrow> engine \<Rightarrow> engine" where
  "cleanCache now e =
     e\<lparr>cache := (\<lambda>key. case cache e key of
                   None \<Rightarrow> None
                 | Some v \<Rightarrow>
                     (if js_lt (maxCacheAge (opts e)) (js_sub (ms now) (ms (timestamp v)))
                      then None else Some v))\<rparr>"

subsection \<open>The top-level call and the two listeners\<close>

text \<open>
  The \<^verbatim>\<open>success\<close> listener. It guards against a missing entry, not against a missing
  \<^verbatim>\<open>apiUsage\<close>.
\<close>

definition on_success :: "string \<Rightarrow> jsnum \<Rightarrow> stats \<Rightarrow> exn + stats" where
  "on_success api duration s =
     (case apiUsage s of
        None \<Rightarrow> Inl undefined_read
      | Some m \<Rightarrow>
          (case m api of
             None \<Rightarrow> Inr s
           | Some u \<Rightarrow> Inr (s\<lparr>apiUsage := Some (m(api \<mapsto> record_success duration u))\<rparr>)))"

text \<open>
  The \<^verbatim>\<open>error\<close> listener. It is handed \<^verbatim>\<open>{ error: error.message, url }\<close> and reads the
  properties \<^verbatim>\<open>message\<close> and \<^verbatim>\<open>url\<close> of that object; the first does not exist.
\<close>

definition on_error :: "string \<Rightarrow> int \<Rightarrow> stats \<Rightarrow> exn + stats" where
  "on_error url now s =
     (case errors s of
        None \<Rightarrow> Inl undefined_read
      | Some es \<Rightarrow>
          Inr (s\<lparr>errors := Some (es @ [\<lparr>err_timestamp = now, err_error = None,
                                        err_url = Some url\<rparr>])\<rparr>))"

record download =
  dl_url :: "string option"
  dl_author :: "string option"
  dl_description :: "string option"
  dl_quality :: quality_tier
  dl_source :: string

definition download_of :: "candidate \<Rightarrow> download" where
  "download_of metadata =
     \<lparr>dl_url = videoUrl metadata, dl_author = author metadata,
      dl_description = desc metadata, dl_quality = quality metadata,
      dl_source = source metadata\<rparr>"

text \<open>Truthiness of a string property: missing and empty are falsy.\<close>

fun truthy_str :: "string option \<Rightarrow> bool" where
  "truthy_str None = False"
| "truthy_str (Some x) = (x \<noteq> [])"

text \<open>The \<^verbatim>\<open>catch\<close> block of \<^verbatim>\<open>downloadVideo\<close>.\<close>

definition download_catch ::
  "env \<Rightarrow> string \<Rightarrow> exn \<Rightarrow> engine \<Rightarrow> string list \<Rightarrow> download run" where
  "download_catch w url ex e called =
     (let s1 = (stats e)\<lparr>failedDownloads := js_inc (failedDownloads (stats e))\<rparr> in
      case on_error url (clock_error w) s1 of
        Inl ex' \<Rightarrow> \<lparr>outcome = Inl ex', final = e\<lparr>stats := s1\<rparr>, invoked = called\<rparr>
      | Inr s2 \<Rightarrow> \<lparr>outcome = Inl ex, final = e\<lparr>stats := s2\<rparr>, invoked = called\<rparr>)"

definition downloadVideo ::
  "(string \<Rightarrow> string) \<Rightarrow> env \<Rightarrow> string \<Rightarrow> engine \<Rightarrow> download run" where
  "downloadVideo md5 w url e =
     (let e0 = e\<lparr>stats := (stats e)\<lparr>totalDownloads := js_inc (totalDownloads (stats e))\<rparr>\<rparr>;
          r = getVideoMetadata md5 w url e0
      in case outcome r of
           Inl ex \<Rightarrow> download_catch w url ex (final r) (invoked r)
         | Inr metadata \<Rightarrow>
             (if \<not> truthy_str (videoUrl metadata)
              then download_catch w url (Error ''Could not get video URL'') (final r) (invoked r)
              else
                (let s1 = (stats (final r))\<lparr>successfulDownloads :=
                             js_inc (successfulDownloads (stats (final r)))\<rparr>;
                     duration = js_sub (ms (clock_end w)) (ms (clock_start w));
                     s2 = s1\<lparr>averageSpeed :=
                             js_div (js_add (js_mul (averageSpeed s1)
                                                    (js_sub (successfulDownloads s1) (Num 1)))
                                            duration)
                                    (successfulDownloads s1)\<rparr>
                 in case on_success (source metadata) duration s2 of
                      Inl ex \<Rightarrow> download_catch w url ex ((final r)\<lparr>stats := s2\<rparr>) (invoked r)
                    | Inr s3 \<Rightarrow>
                        \<lparr>outcome = Inr (download_of metadata),
                         final = (final r)\<lparr>stats := s3\<rparr>,
                         invoked = invoked r\<rparr>)))"

subsection \<open>Sample data\<close>

text \<open>An answer from which an adapter can read every field.\<close>

definition a_video :: answer where
  "a_video = \<lparr>ans_videoUrl = Some ''https://cdn.example/v.mp4'', ans_author = Some ''someone'',
               ans_desc = Some ''clip''\<rparr>"

definition scenario :: "(string \<Rightarrow> settled) \<Rightarrow> env" where
  "scenario r = \<lparr>clock_start = 1000, clock_lookup = 1000, race = r, elapsed = (\<lambda>name. 250),
                 clock_store = 1300, clock_end = 1300, clock_error = 1300\<rparr>"

text \<open>The adapters named in the list find the video; every other adapter returns \<^verbatim>\<open>null\<close>.\<close>

definition answers_from :: "string list \<Rightarrow> string \<Rightarrow> settled" where
  "answers_from names name = (if name \<in> set names then Fulfilled (Some a_video) else Fulfilled None)"

subsection \<open>Summaries of one fan-out unit\<close>

text \<open>
  The following functions are not part of the source. They state, for the theorems below,
  what a unit whose adapter has a statistics entry does to that entry, what it returns and
  which line it adds to the local \<^verbatim>\<open>errors\<close> array.
\<close>

definition registered :: "stats \<Rightarrow> string \<Rightarrow> bool" where
  "registered s name = (case lookup_usage s name of Inl ex \<Rightarrow> False | Inr u \<Rightarrow> True)"

definition unit_effect :: "env \<Rightarrow> string \<Rightarrow> api_usage \<Rightarrow> api_usage" where
  "unit_effect w name u =
     (case race w name of
        Fulfilled (Some ans) \<Rightarrow> record_success (ms (elapsed w name)) (u\<lparr>calls := js_inc (calls u)\<rparr>)
      | Fulfilled None \<Rightarrow> u\<lparr>calls := js_inc (calls u)\<rparr>
      | Rejected err \<Rightarrow> u\<lparr>calls := js_inc (calls u), failures := js_inc (failures u)\<rparr>)"

definition unit_value :: "stats \<Rightarrow> env \<Rightarrow> string \<Rightarrow> unit_result" where
  "unit_value s w name =
     (if registered s name
      then (case race w name of
              Fulfilled (Some ans) \<Rightarrow> Value (Some (adapter_result name ans))
            | Fulfilled None \<Rightarrow> Value None
            | Rejected err \<Rightarrow> Value None)
      else Failure undefined_read)"

definition unit_lines :: "stats \<Rightarrow> env \<Rightarrow> string \<Rightarrow> string list" where
  "unit_lines s w name =
     (if registered s name
      then (case race w name of
              Fulfilled r \<Rightarrow> []
            | Rejected err \<Rightarrow> [name @ '': '' @ message err])
      else [])"

text \<open>Whether the race of a unit produced a candidate, and whether it rejected.\<close>

fun yields_candidate :: "settled \<Rightarrow> bool" where
  "yields_candidate (Fulfilled (Some ans)) = True"
| "yields_candidate (Fulfilled None) = False"
| "yields_candidate (Rejected err) = False"

fun rejects :: "settled \<Rightarrow> bool" where
  "rejects (Rejected err) = True"
| "rejects (Fulfilled r) = False"

text \<open>
  The value of one counter of one provider, and the sum of a counter over a list of
  providers. An entry counts when it exists and its three counters are finite numbers.
\<close>

fun finite_num :: "jsnum \<Rightarrow> bool" where
  "finite_num (Num a) = True"
| "finite_num x = False"

fun num_value :: "jsnum \<Rightarrow> rat" where
  "num_value (Num a) = a"
| "num_value x = 0"

definition counter :: "(api_usage \<Rightarrow> jsnum) \<Rightarrow> stats \<Rightarrow> string \<Rightarrow> rat" where
  "counter f s name = (case lookup_usage s name of Inl ex \<Rightarrow> 0 | Inr u \<Rightarrow> num_value (f u))"

definition total_of :: "(api_usage \<Rightarrow> jsnum) \<Rightarrow> stats \<Rightarrow> string list \<Rightarrow> rat" where
  "total_of f s names = sum_list (map (counter f s) names)"

definition finite_entry :: "stats \<Rightarrow> string \<Rightarrow> bool" where
  "finite_entry s name =
     (case lookup_usage s name of
        Inl ex \<Rightarrow> False
      | Inr u \<Rightarrow> finite_num (calls u) \<and> finite_num (successes u) \<and> finite_num (failures u))"

text \<open>The state in which the fan-out of a resolution starts.\<close>

definition fan_start :: "stats \<Rightarrow> fan" where
  "fan_start s = \<lparr>fan_stats = s, fan_errors = [], fan_invoked = [], fan_results = []\<rparr>"

text \<open>\<^verbatim>\<open>tikwm\<close> runs into the timeout; every other adapter finds the video.\<close>

definition tikwm_times_out :: "string \<Rightarrow> settled" where
  "tikwm_times_out name = (if name = ''tikwm'' then Timeout else Fulfilled (Some a_video))"

subsection \<open>Summary of the cache check\<close>

text \<open>
  What the first statement of \<^verbatim>\<open>getVideoMetadata\<close> finds: the cached result when caching
  is enabled, the key is in the cache and the entry is younger than \<^verbatim>\<open>maxCacheAge\<close>.
  Lemma \<open>getVideoMetadata_cases\<close> below relates it to the model of the source.
\<close>

definition cache_hit :: "engine \<Rightarrow> string \<Rightarrow> int \<Rightarrow> candidate option" where
  "cache_hit e key now =
     (if cacheResults (opts e)
      then (case cache e key of
              None \<Rightarrow> None
            | Some cached \<Rightarrow>
                (if js_lt (js_sub (ms now) (ms (timestamp cached))) (maxCacheAge (opts e))
                 then Some (data cached) else None))
      else None)"

text \<open>
  Two calls of \<^verbatim>\<open>downloadVideo\<close> for one reference on a new engine with default
  options: the first at time 1000, resolved by \<^verbatim>\<open>snaptik\<close> and finished at 1300, the
  second from 2000 to 2010. The digest is replaced by the identity.
\<close>

definition sample_url :: string where
  "sample_url = ''https://vm.tiktok.com/ZMabc''"

definition first_call :: "download run" where
  "first_call = downloadVideo (\<lambda>u. u) (scenario (answers_from [''snaptik''])) sample_url
                  (constructor no_options 0)"

definition second_call :: "download run" where
  "second_call = downloadVideo (\<lambda>u. u)
                   ((scenario (answers_from [''snaptik'']))
                      \<lparr>clock_start := 2000, clock_lookup := 2000, clock_end := 2010\<rparr>)
                   sample_url (final first_call)"

section \<open>Properties\<close>

subsection \<open>The retrying transport\<close>

lemma fetch_loop_all_fail:
  assumes net: "\<And>j. net j = Inl (err j)"
  shows "i \<le> k \<Longrightarrow>
   fetch_loop (int k) net i lastError tr =
     (Inl (if i < k then Some (err (k - 1)) else lastError),
      tr @ concat (map (\<lambda>j. if j < k - 1 then [Attempt j, Sleep (2 ^ j * 1000)]
                              else [Attempt j]) [i..<k]))"
proof (induction "k - i" arbitrary: i lastError tr)
  case 0
  then have "i = k" by simp
  then show ?case by (subst fetch_loop.simps) simp
next
  case (Suc n)
  then have lt: "i < k" and n: "n = k - Suc i" and le: "Suc i \<le> k" by auto
  note step = Suc.hyps(1)[OF n le]
  have last: "\<not> Suc i < k \<Longrightarrow> i = k - 1" using lt by simp
  show ?case
    using lt last
    by (subst fetch_loop.simps) (auto simp: step net upt_conv_Cons)
qed

lemma attempts_steps:
  "attempts (concat (map (\<lambda>j. if P j then [Attempt j, Sleep (d j)] else [Attempt j]) xs)) = xs"
  by (induction xs) (auto simp: attempts_def)

lemma sleeps_steps:
  "sleeps (concat (map (\<lambda>j. if P j then [Attempt j, Sleep (d j)] else [Attempt j]) xs))
     = map d (filter P xs)"
  by (induction xs) (auto simp: sleeps_def)

lemma filter_before_last: "filter (\<lambda>j. j < k - Suc 0) [0..<k] = [0..<k - Suc 0]"
  by (induction k) auto

text \<open>
  Claim C5. When every attempt fails and \<^verbatim>\<open>maxRetries\<close> is \<open>k \<ge> 1\<close>, \<^verbatim>\<open>fetchWithRetry\<close>
  makes the attempts \<open>0, \<dots>, k - 1\<close> and no other, sleeps \<open>2^i\<close> seconds after attempt \<open>i\<close>
  for every \<open>i\<close> but the last, and throws the error of attempt \<open>k - 1\<close>.
\<close>

theorem fetchWithRetry_exhausts_retries:
  assumes "maxRetries (opts e) = int k" and "0 < k"
  shows "fetchWithRetry e (\<lambda>i. Inl (err i)) = (Inl (Some (err (k - 1))), backoff_trace k)
       \<and> attempts (backoff_trace k) = [0..<k]
       \<and> sleeps (backoff_trace k) = map (\<lambda>i. 2 ^ i * 1000) [0..<k - 1]"
  using assms
  by (simp add: fetchWithRetry_def fetch_loop_all_fail[where err = err] backoff_trace_def
        attempts_steps sleeps_steps filter_before_last)

text \<open>With the default \<^verbatim>\<open>maxRetries = 3\<close>: three attempts, sleeps of 1 s and 2 s.\<close>

theorem fetchWithRetry_three_attempts:
  "maxRetries (opts (constructor no_options 0)) = int 3 \<and> (0::nat) < 3
   \<and> fetchWithRetry (constructor no_options 0) (\<lambda>i. Inl (i + 10))
       = (Inl (Some 12), [Attempt 0, Sleep 1000, Attempt 1, Sleep 2000, Attempt 2])
   \<and> attempts (backoff_trace 3) = [0, 1, 2]
   \<and> sleeps (backoff_trace 3) = [1000, 2000]"
proof -
  have k: "maxRetries (opts (constructor no_options 0)) = int 3"
    by (simp add: constructor_def no_options_def)
  have u3: "[0..<3] = [0, 1, 2]" and u2: "[0..<2] = [0, Suc 0]"
    by (simp_all add: upt_conv_Cons)
  have bt: "backoff_trace 3 = [Attempt 0, Sleep 1000, Attempt 1, Sleep 2000, Attempt 2]"
    by (simp add: backoff_trace_def u3)
  show ?thesis
    using fetchWithRetry_exhausts_retries[OF k, of "\<lambda>i. i + 10"] k
    by (simp add: bt u2 u3)
qed

subsection \<open>The quality arbiter\<close>

text \<open>The insertion sort returns the same elements.\<close>

lemma set_insert_by: "set (insert_by cmp x xs) = insert x (set xs)"
  by (induction xs) auto

lemma set_sort_by: "set (sort_by cmp xs) = set xs"
  unfolding sort_by_def by (induction xs) (auto simp: set_insert_by)

lemma length_insert_by: "length (insert_by cmp x xs) = Suc (length xs)"
  by (induction xs) auto

lemma length_sort_by: "length (sort_by cmp xs) = length xs"
  unfolding sort_by_def by (induction xs) (auto simp: length_insert_by)

lemma sort_by_Nil_iff: "sort_by cmp xs = [] \<longleftrightarrow> xs = []"
  using length_sort_by[of cmp xs] by (metis length_0_conv)

lemma compare_results_quality:
  "compare_results a b \<le> 0 \<Longrightarrow> qualityMap (quality b) \<le> qualityMap (quality a)"
  "\<not> compare_results a b \<le> 0 \<Longrightarrow> qualityMap (quality a) \<le> qualityMap (quality b)"
  by (auto simp: compare_results_def split: if_splits)

lemma insert_by_quality_sorted:
  "sorted_wrt (\<lambda>a b. qualityMap (quality b) \<le> qualityMap (quality a)) xs \<Longrightarrow>
   sorted_wrt (\<lambda>a b. qualityMap (quality b) \<le> qualityMap (quality a))
     (insert_by compare_results x xs)"
proof (induction xs)
  case Nil
  then show ?case by simp
next
  case (Cons y ys)
  show ?case
  proof (cases "compare_results x y \<le> 0")
    case True
    then have "qualityMap (quality y) \<le> qualityMap (quality x)"
      by (rule compare_results_quality)
    with Cons.prems True show ?thesis by fastforce
  next
    case False
    then have "qualityMap (quality x) \<le> qualityMap (quality y)"
      by (rule compare_results_quality)
    with Cons False show ?thesis by (auto simp: set_insert_by)
  qed
qed

lemma sort_by_quality_sorted:
  "sorted_wrt (\<lambda>a b. qualityMap (quality b) \<le> qualityMap (quality a))
     (sort_by compare_results xs)"
  unfolding sort_by_def by (induction xs) (auto simp: insert_by_quality_sorted)

lemma sort_by_head_best:
  assumes "sort_by compare_results xs = t # rest" and "c \<in> set xs"
  shows "qualityMap (quality c) \<le> qualityMap (quality t)"
proof -
  have "c \<in> set (t # rest)" using assms set_sort_by[of compare_results xs] by simp
  moreover have "sorted_wrt (\<lambda>a b. qualityMap (quality b) \<le> qualityMap (quality a)) (t # rest)"
    using sort_by_quality_sorted[of xs] assms(1) by simp
  ultimately show ?thesis by auto
qed

lemma qualityMap_inj: "qualityMap p = qualityMap q \<longleftrightarrow> p = q"
  by (cases p; cases q) (simp_all add: qualityMap_def)

lemma qualityMap_High: "qualityMap q \<le> qualityMap High" "qualityMap High \<le> qualityMap q \<longleftrightarrow> q = High"
  by (cases q; simp add: qualityMap_def)+

lemma find_none_sort:
  "\<forall>c\<in>set xs. \<not> P c \<Longrightarrow> find P (sort_by cmp xs) = None"
  by (simp add: find_None_iff set_sort_by)



text \<open>
  \<^verbatim>\<open>compare_results\<close> is a total preorder, so the array after \<^verbatim>\<open>sort\<close> is ordered by
  it, and the model of \<^verbatim>\<open>sort\<close> does not depend on the sorting algorithm.
\<close>

lemma compare_results_total: "\<not> compare_results a b \<le> 0 \<Longrightarrow> compare_results b a \<le> 0"
  by (auto simp: compare_results_def split: if_splits)

lemma compare_results_trans:
  "compare_results a b \<le> 0 \<Longrightarrow> compare_results b c \<le> 0 \<Longrightarrow> compare_results a c \<le> 0"
  by (auto simp: compare_results_def split: if_splits)

lemma insert_by_sorted:
  "sorted_wrt (\<lambda>a b. compare_results a b \<le> 0) xs \<Longrightarrow>
   sorted_wrt (\<lambda>a b. compare_results a b \<le> 0) (insert_by compare_results x xs)"
proof (induction xs)
  case Nil
  then show ?case by simp
next
  case (Cons y ys)
  show ?case
  proof (cases "compare_results x y \<le> 0")
    case True
    with Cons.prems show ?thesis
      by (auto intro: compare_results_trans)
  next
    case False
    then have "compare_results y x \<le> 0" by (rule compare_results_total)
    with Cons False show ?thesis by (auto simp: set_insert_by)
  qed
qed

lemma sort_by_sorted:
  "sorted_wrt (\<lambda>a b. compare_results a b \<le> 0) (sort_by compare_results xs)"
  unfolding sort_by_def by (induction xs) (auto simp: insert_by_sorted)


text \<open>\<^verbatim>\<open>indexOf\<close> gives \<open>-1\<close> to a source that is not in \<^verbatim>\<open>sourceOrder\<close>.\<close>

lemma indexOf_absent: "x \<notin> set ys \<Longrightarrow> indexOf ys x = - 1"
  by (induction ys) (auto simp: Let_def)

lemma indexOf_present: "x \<in> set ys \<Longrightarrow> 0 \<le> indexOf ys x"
  by (induction ys) (auto simp: Let_def)

lemma unlisted_source_sorts_first:
  assumes "quality a = quality b"
    and "source a \<notin> set sourceOrder" and "source b \<in> set sourceOrder"
  shows "compare_results a b < 0" and "0 < compare_results b a"
  using assms indexOf_absent[of "source a" sourceOrder] indexOf_present[of "source b" sourceOrder]
  by (simp_all add: compare_results_def)


text \<open>
  Claim C2 says that among candidates of equal quality a provider named in the preference
  list is ranked before a provider that is not. The comparison function subtracts the
  \<^verbatim>\<open>indexOf\<close> positions, and the position of an unlisted provider is \<open>-1\<close>, so the order
  is the opposite (lemma \<open>unlisted_source_sorts_first\<close>). Evaluated on a \<^verbatim>\<open>snaptik\<close> and
  an \<^verbatim>\<open>ssstik\<close> candidate of quality \<^verbatim>\<open>high\<close>: \<^verbatim>\<open>ssstik\<close>, which is not in the list,
  sorts first and is selected.
\<close>

theorem selectBestQuality_prefers_unlisted_source:
  "quality (adapter_result ''snaptik'' a_video) = quality (adapter_result ''ssstik'' a_video)
   \<and> ''snaptik'' \<in> set sourceOrder \<and> ''ssstik'' \<notin> set sourceOrder
   \<and> compare_results (adapter_result ''ssstik'' a_video) (adapter_result ''snaptik'' a_video) < 0
   \<and> sort_by compare_results [adapter_result ''snaptik'' a_video, adapter_result ''ssstik'' a_video]
        = [adapter_result ''ssstik'' a_video, adapter_result ''snaptik'' a_video]
   \<and> selectBestQuality (constructor no_options 0)
        [adapter_result ''snaptik'' a_video, adapter_result ''ssstik'' a_video]
        = Inr (adapter_result ''ssstik'' a_video)"
  by (simp add: adapter_result_def sourceOrder_def compare_results_def sort_by_def
        selectBestQuality_def constructor_def no_options_def qualityMap_def)


text \<open>
  Claim C6, as amended. For a non-empty candidate list: when the preferred quality is not
  \<^verbatim>\<open>high\<close>, \<^verbatim>\<open>selectBestQuality\<close> returns the first candidate of the sorted order whose
  quality is the preferred one, and the top of the sort when there is none; a request that
  matches no candidate therefore returns what a request for \<^verbatim>\<open>high\<close> returns. The top of
  the sort has the highest quality present: it is a \<^verbatim>\<open>high\<close> result exactly when some
  candidate is \<^verbatim>\<open>high\<close>.
\<close>

theorem selectBestQuality_soft_preference:
  assumes "results \<noteq> []" and "sort_by compare_results results = ordered"
  shows "ordered \<noteq> []
    \<and> (preferredQuality (opts e) = ''high'' \<longrightarrow> selectBestQuality e results = Inr (hd ordered))
    \<and> (preferredQuality (opts e) \<noteq> ''high'' \<longrightarrow>
         selectBestQuality e results =
           Inr (case find (\<lambda>r. tier_name (quality r) = preferredQuality (opts e)) ordered of
                  Some r \<Rightarrow> r | None \<Rightarrow> hd ordered))
    \<and> ((\<forall>c\<in>set results. tier_name (quality c) \<noteq> preferredQuality (opts e)) \<longrightarrow>
         selectBestQuality e results = Inr (hd ordered)
         \<and> (\<forall>e'. preferredQuality (opts e') = ''high'' \<longrightarrow>
               selectBestQuality e' results = selectBestQuality e results))
    \<and> (\<forall>c\<in>set results. qualityMap (quality c) \<le> qualityMap (quality (hd ordered)))
    \<and> ((\<exists>c\<in>set results. quality c = High) \<longrightarrow> quality (hd ordered) = High)"
proof -
  from assms obtain best rest where ord: "ordered = best # rest"
    using sort_by_Nil_iff[of compare_results results] by (cases ordered) auto
  have sel: "selectBestQuality e' results =
      Inr (if preferredQuality (opts e') \<noteq> ''high''
           then (case find (\<lambda>r. tier_name (quality r) = preferredQuality (opts e')) ordered of
                   Some r \<Rightarrow> r | None \<Rightarrow> best)
           else best)" for e'
    using ord assms(2) by (simp add: selectBestQuality_def split: option.splits)
  have none: "find (\<lambda>r. tier_name (quality r) = preferredQuality (opts e)) ordered = None"
    if "\<forall>c\<in>set results. tier_name (quality c) \<noteq> preferredQuality (opts e)"
    using that set_sort_by[of compare_results results] assms(2) by (simp add: find_None_iff)
  have best: "qualityMap (quality c) \<le> qualityMap (quality best)" if "c \<in> set results" for c
    using sort_by_head_best[of results best rest c] ord assms(2) that by simp
  have high: "quality best = High" if "c \<in> set results" "quality c = High" for c
    using best[OF that(1)] that(2) qualityMap_High(2)[of "quality best"] by simp
  show ?thesis
    using ord sel none best high by (auto split: option.splits)
qed



text \<open>
  A request for \<^verbatim>\<open>low\<close> over a \<^verbatim>\<open>medium\<close> and a \<^verbatim>\<open>high\<close> candidate returns the
  \<^verbatim>\<open>high\<close> one.
\<close>

theorem selectBestQuality_low_falls_back_to_high:
  "[adapter_result ''webscraping'' a_video, adapter_result ''snaptik'' a_video] \<noteq> []
   \<and> sort_by compare_results [adapter_result ''webscraping'' a_video, adapter_result ''snaptik'' a_video]
       = [adapter_result ''snaptik'' a_video, adapter_result ''webscraping'' a_video]
   \<and> preferredQuality (opts (constructor (no_options\<lparr>raw_preferredQuality := Some ''low''\<rparr>) 0)) = ''low''
   \<and> list_all (\<lambda>c. tier_name (quality c) \<noteq> ''low'')
        [adapter_result ''webscraping'' a_video, adapter_result ''snaptik'' a_video]
   \<and> selectBestQuality (constructor (no_options\<lparr>raw_preferredQuality := Some ''low''\<rparr>) 0)
        [adapter_result ''webscraping'' a_video, adapter_result ''snaptik'' a_video]
       = Inr (adapter_result ''snaptik'' a_video)
   \<and> quality (adapter_result ''snaptik'' a_video) = High"
proof -
  let ?rs = "[adapter_result ''webscraping'' a_video, adapter_result ''snaptik'' a_video]"
  let ?e = "constructor (no_options\<lparr>raw_preferredQuality := Some ''low''\<rparr>) 0"
  have ne: "?rs \<noteq> []" by simp
  have ord: "sort_by compare_results ?rs
       = [adapter_result ''snaptik'' a_video, adapter_result ''webscraping'' a_video]"
    by (simp add: sort_by_def compare_results_def adapter_result_def qualityMap_def)
  have pref: "preferredQuality (opts ?e) = ''low''"
    by (simp add: constructor_def no_options_def)
  have nolow: "\<forall>c\<in>set ?rs. tier_name (quality c) \<noteq> preferredQuality (opts ?e)"
    by (simp add: pref adapter_result_def)
  from selectBestQuality_soft_preference[OF ne ord, of ?e] nolow
  have "selectBestQuality ?e ?rs = Inr (adapter_result ''snaptik'' a_video)"
    by simp
  then show ?thesis
    using ord pref by (simp add: adapter_result_def)
qed


text \<open>
  Claim C6 as stated promises a \<^verbatim>\<open>high\<close> result whenever no \<^verbatim>\<open>low\<close> candidate exists.
  With a single \<^verbatim>\<open>medium\<close> candidate the request for \<^verbatim>\<open>low\<close> returns that \<^verbatim>\<open>medium\<close>
  candidate.
\<close>

theorem selectBestQuality_low_request_medium_result:
  "[adapter_result ''webscraping'' a_video] \<noteq> []
   \<and> preferredQuality (opts (constructor (no_options\<lparr>raw_preferredQuality := Some ''low''\<rparr>) 0)) = ''low''
   \<and> find (\<lambda>c. quality c = Low) [adapter_result ''webscraping'' a_video] = None
   \<and> selectBestQuality (constructor (no_options\<lparr>raw_preferredQuality := Some ''low''\<rparr>) 0)
        [adapter_result ''webscraping'' a_video]
       = Inr (adapter_result ''webscraping'' a_video)
   \<and> quality (adapter_result ''webscraping'' a_video) = Medium
   \<and> quality (adapter_result ''webscraping'' a_video) \<noteq> High"
  by (simp add: adapter_result_def sort_by_def selectBestQuality_def constructor_def
        no_options_def)

subsection \<open>The fan-out\<close>

text \<open>
  What one unit does, in terms of the summaries: the entry of its adapter is updated by
  \<open>unit_effect\<close> when it exists; when it does not, the unit changes nothing, never calls
  its adapter and rejects.
\<close>

lemma lookup_update_usage:
  "update_usage name f s = Inr s' \<Longrightarrow>
   lookup_usage s' m = (if m = name then map_sum (\<lambda>ex. ex) f (lookup_usage s name) else lookup_usage s m)"
  by (auto simp: update_usage_def lookup_usage_def split: sum.splits option.splits if_splits)

lemma update_usage_Inr:
  "lookup_usage s name = Inr u \<Longrightarrow> \<exists>s'. update_usage name f s = Inr s'"
  by (simp add: update_usage_def)

lemma update_usage_Inl:
  "lookup_usage s name = Inl ex \<Longrightarrow> update_usage name f s = Inl ex"
  by (simp add: update_usage_def)

lemma lookup_usage_Inl: "lookup_usage s name = Inl ex \<Longrightarrow> ex = undefined_read"
  by (auto simp: lookup_usage_def split: option.splits)

lemma update_usage_fields:
  "update_usage name f s = Inr s' \<Longrightarrow>
   s' = s\<lparr>apiUsage := apiUsage s'\<rparr>"
  by (auto simp: update_usage_def split: sum.splits)

lemma run_unit_unregistered:
  "\<not> registered (fan_stats st) name \<Longrightarrow>
   run_unit w name st = st\<lparr>fan_results := fan_results st @ [Failure undefined_read]\<rparr>"
  by (auto simp: registered_def run_unit_def unit_catch_def update_usage_def
      dest: lookup_usage_Inl split: sum.splits)

lemma run_unit_registered:
  assumes "lookup_usage (fan_stats st) name = Inr u"
  shows "fan_errors (run_unit w name st) = fan_errors st @ unit_lines (fan_stats st) w name
       \<and> fan_invoked (run_unit w name st) = fan_invoked st @ [name]
       \<and> fan_results (run_unit w name st) = fan_results st @ [unit_value (fan_stats st) w name]
       \<and> fan_stats (run_unit w name st) =
             (fan_stats st)\<lparr>apiUsage := apiUsage (fan_stats (run_unit w name st))\<rparr>
       \<and> (\<forall>m. lookup_usage (fan_stats (run_unit w name st)) m =
                 (if m = name then Inr (unit_effect w name u) else lookup_usage (fan_stats st) m))"
proof -
  obtain s1 where s1: "update_usage name (\<lambda>u. u\<lparr>calls := js_inc (calls u)\<rparr>) (fan_stats st) = Inr s1"
    using update_usage_Inr[OF assms] by blast
  have l1: "lookup_usage s1 m = (if m = name then Inr (u\<lparr>calls := js_inc (calls u)\<rparr>)
                                 else lookup_usage (fan_stats st) m)" for m
    using lookup_update_usage[OF s1, of m] assms by simp
  have f1: "s1 = (fan_stats st)\<lparr>apiUsage := apiUsage s1\<rparr>"
    using update_usage_fields[OF s1] .
  have reg: "registered (fan_stats st) name" using assms by (simp add: registered_def)
  show ?thesis
  proof (cases "race w name")
    case (Rejected err)
    obtain s2 where s2: "update_usage name (\<lambda>u. u\<lparr>failures := js_inc (failures u)\<rparr>) s1 = Inr s2"
      using update_usage_Inr[of s1 name] l1[of name] by auto
    have l2: "lookup_usage s2 m = (if m = name then Inr (unit_effect w name u)
                                   else lookup_usage (fan_stats st) m)" for m
      using lookup_update_usage[OF s2, of m] l1 Rejected by (simp add: unit_effect_def)
    have f2: "s2 = (fan_stats st)\<lparr>apiUsage := apiUsage s2\<rparr>"
      using update_usage_fields[OF s2] f1 by (metis stats.update_convs(7) stats.surjective)
    show ?thesis
      using s1 s2 l2 f2 Rejected reg
      by (simp add: run_unit_def unit_catch_def unit_lines_def unit_value_def)
  next
    case (Fulfilled r)
    show ?thesis
    proof (cases r)
      case None
      show ?thesis
        using s1 l1 f1 Fulfilled None reg
        by (simp add: run_unit_def unit_lines_def unit_value_def unit_effect_def)
    next
      case (Some ans)
      obtain s2 where s2: "update_usage name (record_success (ms (elapsed w name))) s1 = Inr s2"
        using update_usage_Inr[of s1 name] l1[of name] by auto
      have l2: "lookup_usage s2 m = (if m = name then Inr (unit_effect w name u)
                                     else lookup_usage (fan_stats st) m)" for m
        using lookup_update_usage[OF s2, of m] l1 Fulfilled Some by (simp add: unit_effect_def)
      have f2: "s2 = (fan_stats st)\<lparr>apiUsage := apiUsage s2\<rparr>"
        using update_usage_fields[OF s2] f1 by (metis stats.update_convs(7) stats.surjective)
      show ?thesis
        using s1 s2 l2 f2 Fulfilled Some reg
        by (simp add: run_unit_def unit_lines_def unit_value_def)
    qed
  qed
qed


lemma run_unit_summary:
  "fan_errors (run_unit w name st) = fan_errors st @ unit_lines (fan_stats st) w name
   \<and> fan_invoked (run_unit w name st)
       = fan_invoked st @ (if registered (fan_stats st) name then [name] else [])
   \<and> fan_results (run_unit w name st) = fan_results st @ [unit_value (fan_stats st) w name]
   \<and> fan_stats (run_unit w name st) =
         (fan_stats st)\<lparr>apiUsage := apiUsage (fan_stats (run_unit w name st))\<rparr>
   \<and> (\<forall>m. lookup_usage (fan_stats (run_unit w name st)) m =
             (if m = name then map_sum (\<lambda>ex. ex) (unit_effect w name) (lookup_usage (fan_stats st) name)
              else lookup_usage (fan_stats st) m))"
proof (cases "lookup_usage (fan_stats st) name")
  case (Inl ex)
  then have "\<not> registered (fan_stats st) name" by (simp add: registered_def)
  then show ?thesis
    using Inl by (simp add: run_unit_unregistered unit_lines_def unit_value_def)
next
  case (Inr u)
  then have "registered (fan_stats st) name" by (simp add: registered_def)
  then show ?thesis
    using run_unit_registered[OF Inr, of w] Inr by simp
qed

lemma registered_run_unit:
  "registered (fan_stats (run_unit w name st)) m = registered (fan_stats st) m"
  using run_unit_summary[of w name st]
  by (cases "lookup_usage (fan_stats st) name") (auto simp: registered_def)

lemma registered_cong:
  "(\<And>m. registered s' m = registered s m) \<Longrightarrow>
   unit_value s' w = unit_value s w \<and> unit_lines s' w = unit_lines s w
   \<and> filter (registered s') ns = filter (registered s) ns"
  by (auto simp: unit_value_def unit_lines_def fun_eq_iff intro: filter_cong)

lemma fanout_summary:
  "fan_errors (fanout w ns st) = fan_errors st @ concat (map (unit_lines (fan_stats st) w) ns)
   \<and> fan_invoked (fanout w ns st) = fan_invoked st @ filter (registered (fan_stats st)) ns
   \<and> fan_results (fanout w ns st) = fan_results st @ map (unit_value (fan_stats st) w) ns
   \<and> fan_stats (fanout w ns st) =
         (fan_stats st)\<lparr>apiUsage := apiUsage (fan_stats (fanout w ns st))\<rparr>"
proof (induction ns arbitrary: st)
  case Nil
  show ?case by simp
next
  case (Cons n ns)
  let ?st1 = "run_unit w n st"
  note u = run_unit_summary[of w n st]
  note c = registered_cong[of "fan_stats ?st1" "fan_stats st" w ns, OF registered_run_unit]
  have f: "fan_stats (fanout w ns ?st1) =
         (fan_stats st)\<lparr>apiUsage := apiUsage (fan_stats (fanout w ns ?st1))\<rparr>"
    using Cons.IH[of ?st1] u by (metis stats.update_convs(7) stats.surjective)
  show ?case
    using Cons.IH[of ?st1] u c f by simp
qed

lemma fanout_lookup:
  "distinct ns \<Longrightarrow>
   lookup_usage (fan_stats (fanout w ns st)) m =
     (if m \<in> set ns then map_sum (\<lambda>ex. ex) (unit_effect w m) (lookup_usage (fan_stats st) m)
      else lookup_usage (fan_stats st) m)"
proof (induction ns arbitrary: st)
  case Nil
  show ?case by simp
next
  case (Cons n ns)
  note u = run_unit_summary[of w n st]
  show ?case
    using Cons.IH[of "run_unit w n st"] Cons.prems u by auto
qed


subsection \<open>An engine without its per-provider registry\<close>

text \<open>
  When \<^verbatim>\<open>apiUsage\<close> is missing from the statistics object every unit rejects before its
  adapter is called, and when the error log is missing too the \<^verbatim>\<open>catch\<close> block of
  \<^verbatim>\<open>downloadVideo\<close> throws from inside the \<^verbatim>\<open>error\<close> listener.
\<close>

lemma update_usage_missing: "apiUsage s = None \<Longrightarrow> update_usage name f s = Inl undefined_read"
  by (simp add: update_usage_def lookup_usage_def)

lemma run_unit_missing:
  "apiUsage (fan_stats st) = None \<Longrightarrow>
   run_unit w name st = st\<lparr>fan_results := fan_results st @ [Failure undefined_read]\<rparr>"
  by (simp add: run_unit_def unit_catch_def update_usage_missing)

lemma fanout_missing:
  "apiUsage (fan_stats st) = None \<Longrightarrow>
   fanout w names st =
     st\<lparr>fan_results := fan_results st @ map (\<lambda>n. Failure undefined_read) names\<rparr>"
  by (induction names arbitrary: st) (simp_all add: run_unit_missing)

lemma successfulResults_failures:
  "successfulResults (map (\<lambda>n. Failure ex) names) = []"
  by (induction names) (simp_all add: successfulResults_def)

lemma resolve_fresh_missing:
  "apiUsage (stats e) = None \<Longrightarrow>
   resolve_fresh key w e =
     \<lparr>outcome = Inl (Error (''All methods failed:'' @ [CHR 0x0A])), final = e, invoked = []\<rparr>"
  by (simp add: resolve_fresh_def fanout_missing successfulResults_failures)

lemma getVideoMetadata_missing:
  assumes "apiUsage (stats e) = None" and "errors (stats e) = None"
  shows "apiUsage (stats (final (getVideoMetadata md5 w url e))) = None
       \<and> errors (stats (final (getVideoMetadata md5 w url e))) = None"
  using assms
  by (auto simp: getVideoMetadata_def resolve_fresh_missing Let_def split: option.splits)

lemma download_catch_missing:
  "errors (stats e) = None \<Longrightarrow> outcome (download_catch w url ex e called) = Inl undefined_read"
  by (simp add: download_catch_def on_error_def)

lemma downloadVideo_missing:
  assumes "apiUsage (stats e) = None" and "errors (stats e) = None"
  shows "outcome (downloadVideo md5 w url e) = Inl undefined_read"
proof -
  let ?e0 = "e\<lparr>stats := (stats e)\<lparr>totalDownloads := js_inc (totalDownloads (stats e))\<rparr>\<rparr>"
  let ?r = "getVideoMetadata md5 w url ?e0"
  have m: "apiUsage (stats (final ?r)) = None" "errors (stats (final ?r)) = None"
    using getVideoMetadata_missing[of ?e0 md5 w url] assms by simp_all
  show ?thesis
    using m
    by (simp add: downloadVideo_def Let_def download_catch_missing on_success_def
          split: sum.splits)
qed

subsection \<open>Resolution on a constructed engine\<close>

text \<open>
  The constructor creates one statistics entry per key of \<^verbatim>\<open>apis\<close>. Six of the seven
  adapters have such a key; \<^verbatim>\<open>webscraping\<close> has none.
\<close>

lemma registered_constructor:
  "registered (stats (constructor raw t)) name = (name \<in> set apis)"
  by (simp add: registered_def lookup_usage_def constructor_def apis_def fresh_usage_def)

lemma registered_apiMethods:
  "filter (registered (stats (constructor raw t))) apiMethods
     = [''snaptik'', ''tikwm'', ''tikdown'', ''savett'', ''ssstik'', ''dlpanda'']"
  by (simp add: registered_constructor apiMethods_def apis_def)

lemma getVideoMetadata_uncached:
  "cache e (md5 url) = None \<Longrightarrow> getVideoMetadata md5 w url e = resolve_fresh (md5 url) w e"
  by (simp add: getVideoMetadata_def)

lemma resolve_fresh_invoked:
  "invoked (resolve_fresh key w e) = filter (registered (stats e)) apiMethods"
  using fanout_summary[of w apiMethods
      "\<lparr>fan_stats = stats e, fan_errors = [], fan_invoked = [], fan_results = []\<rparr>"]
  by (simp add: resolve_fresh_def Let_def split: sum.splits)

lemma resolve_fresh_found:
  "successfulResults (fan_results (fanout w apiMethods
      \<lparr>fan_stats = stats e, fan_errors = [], fan_invoked = [], fan_results = []\<rparr>))
   = successfulResults (map (unit_value (stats e) w) apiMethods)"
  using fanout_summary[of w apiMethods
      "\<lparr>fan_stats = stats e, fan_errors = [], fan_invoked = [], fan_results = []\<rparr>"]
  by simp

lemma resolve_fresh_lines:
  "fan_errors (fanout w apiMethods
      \<lparr>fan_stats = stats e, fan_errors = [], fan_invoked = [], fan_results = []\<rparr>)
   = concat (map (unit_lines (stats e) w) apiMethods)"
  using fanout_summary[of w apiMethods
      "\<lparr>fan_stats = stats e, fan_errors = [], fan_invoked = [], fan_results = []\<rparr>"]
  by simp


subsection \<open>Statistics: reset and snapshots\<close>

text \<open>
  Claim C7 says that \<^verbatim>\<open>resetStats\<close> clears every counter, the per-provider counters,
  the cache-save count and the error log included, and that recording and the snapshots
  keep working afterwards. \<^verbatim>\<open>resetStats\<close> assigns an object with four properties, while
  the constructor creates nine. For every engine, after \<^verbatim>\<open>resetStats\<close>: the per-provider
  registry, the error log and the cache-save count are missing rather than zero or empty;
  \<^verbatim>\<open>getDetailedStats\<close> throws; a resolution that misses the cache calls no adapter and
  fails; and every call of \<^verbatim>\<open>downloadVideo\<close> throws a \<^verbatim>\<open>TypeError\<close>.
\<close>

theorem resetStats_drops_statistics:
  "apiUsage (stats (resetStats e)) = None
   \<and> errors (stats (resetStats e)) = None
   \<and> cacheSaves (stats (resetStats e)) = None
   \<and> lookup_usage (stats (resetStats e)) name = Inl undefined_read
   \<and> getDetailedStats (resetStats e) now = Inl undefined_read
   \<and> invoked (resolve_fresh key w (resetStats e)) = []
   \<and> outcome (resolve_fresh key w (resetStats e))
       = Inl (Error (''All methods failed:'' @ [CHR 0x0A]))
   \<and> outcome (downloadVideo md5 w url (resetStats e)) = Inl undefined_read"
proof -
  have a: "apiUsage (stats (resetStats e)) = None" and b: "errors (stats (resetStats e)) = None"
    by (simp_all add: resetStats_def)
  show ?thesis
    using a b downloadVideo_missing[OF a b, of md5 w url] resolve_fresh_missing[OF a, of key w]
    by (simp add: lookup_usage_def getDetailedStats_def Let_def) (simp add: resetStats_def)
qed


text \<open>
  With no download recorded both snapshots divide zero by zero, which is not-a-number and
  not an error.
\<close>

lemma getStats_zero_denominator:
  "totalDownloads (stats e) = Num 0 \<Longrightarrow> successfulDownloads (stats e) = Num 0 \<Longrightarrow>
   bs_successRate (getStats e) = NaN"
  by (simp add: getStats_def)

lemma getDetailedStats_zero_denominator:
  assumes "errors (stats e) = Some es" and "totalDownloads (stats e) = Num 0"
    and "successfulDownloads (stats e) = Num 0" and "cacheSaves (stats e) = Some (Num 0)"
  shows "\<exists>d. getDetailedStats e now = Inr d \<and> ds_successRate d = NaN \<and> ds_cacheEfficiency d = NaN"
  using assms by (simp add: getDetailedStats_def Let_def)

lemma getDetailedStats_fresh:
  "\<exists>d. getDetailedStats (constructor raw t) now = Inr d
       \<and> ds_successRate d = NaN \<and> ds_cacheEfficiency d = NaN \<and> ds_lastErrors d = []"
  by (simp add: getDetailedStats_def Let_def constructor_def)


text \<open>
  Claim C9 says that in every state with \<^verbatim>\<open>totalDownloads = 0\<close> both snapshots return a
  value. The state right after \<^verbatim>\<open>resetStats\<close> on a new engine is such a state:
  \<^verbatim>\<open>getStats\<close> returns there, with not-a-number as success rate, and
  \<^verbatim>\<open>getDetailedStats\<close> throws, because the error log it slices is missing.
\<close>

theorem getDetailedStats_after_resetStats:
  "totalDownloads (stats (resetStats (constructor raw t))) = Num 0
   \<and> bs_successRate (getStats (resetStats (constructor raw t))) = NaN
   \<and> getDetailedStats (resetStats (constructor raw t)) now = Inl undefined_read"
  by (simp add: resetStats_def getStats_def getDetailedStats_def Let_def)


text \<open>
  Claim C3 says that every unit of the fan-out updates the entry of a provider present in
  the registry, that \<^verbatim>\<open>webscraping\<close> is accounted like every other provider, and that
  the accounting never faults on a missing entry. On every constructed engine the registry
  has no \<^verbatim>\<open>webscraping\<close> entry: the unit throws at its call counter, throws again in its
  \<^verbatim>\<open>catch\<close> block, and rejects with no counter changed and its adapter never called.
  When \<^verbatim>\<open>webscraping\<close> is the only adapter that would find the video, the resolution
  calls the six other adapters and fails.
\<close>

theorem webscraping_unit_faults:
  "lookup_usage (stats (constructor raw t)) ''webscraping'' = Inl undefined_read
   \<and> run_unit w ''webscraping''
        \<lparr>fan_stats = stats (constructor raw t), fan_errors = lines, fan_invoked = called,
         fan_results = rs\<rparr>
       = \<lparr>fan_stats = stats (constructor raw t), fan_errors = lines, fan_invoked = called,
          fan_results = rs @ [Failure undefined_read]\<rparr>
   \<and> invoked (getVideoMetadata md5 (scenario (answers_from [''webscraping''])) url
                (constructor raw t))
       = [''snaptik'', ''tikwm'', ''tikdown'', ''savett'', ''ssstik'', ''dlpanda'']
   \<and> outcome (getVideoMetadata md5 (scenario (answers_from [''webscraping''])) url
                (constructor raw t))
       = Inl (Error (''All methods failed:'' @ [CHR 0x0A]))"
proof -
  let ?e = "constructor raw t"
  let ?w = "scenario (answers_from [''webscraping''])"
  have nr: "\<not> registered (stats ?e) ''webscraping''"
    by (simp add: registered_constructor apis_def)
  have l: "lookup_usage (stats ?e) ''webscraping'' = Inl undefined_read"
    using nr lookup_usage_Inl[of "stats ?e" "''webscraping''"]
    by (cases "lookup_usage (stats ?e) ''webscraping''") (auto simp: registered_def)
  have u: "run_unit w ''webscraping''
        \<lparr>fan_stats = stats ?e, fan_errors = lines, fan_invoked = called, fan_results = rs\<rparr>
       = \<lparr>fan_stats = stats ?e, fan_errors = lines, fan_invoked = called,
          fan_results = rs @ [Failure undefined_read]\<rparr>"
    using nr by (simp add: run_unit_unregistered)
  have c: "cache ?e (md5 url) = None" by (simp add: constructor_def)
  have g: "getVideoMetadata md5 ?w url ?e = resolve_fresh (md5 url) ?w ?e"
    using c by (rule getVideoMetadata_uncached)
  have i: "invoked (resolve_fresh (md5 url) ?w ?e)
       = [''snaptik'', ''tikwm'', ''tikdown'', ''savett'', ''ssstik'', ''dlpanda'']"
    by (simp add: resolve_fresh_invoked registered_apiMethods)
  have f: "successfulResults (map (unit_value (stats ?e) ?w) apiMethods) = []"
    by (simp add: unit_value_def registered_constructor apis_def apiMethods_def
          successfulResults_def scenario_def answers_from_def)
  have ls: "concat (map (unit_lines (stats ?e) ?w) apiMethods) = []"
    by (simp add: unit_lines_def registered_constructor apis_def apiMethods_def
          scenario_def answers_from_def)
  have out: "outcome (resolve_fresh (md5 url) ?w ?e) = Inl (Error (''All methods failed:'' @ [CHR 0x0A]))"
    by (simp add: resolve_fresh_def Let_def resolve_fresh_found resolve_fresh_lines f ls)
  show ?thesis using l u g i out by simp
qed

subsection \<open>Per-provider accounting\<close>

lemma unit_effect_counters:
  "calls (unit_effect w name u) = js_inc (calls u)"
  "successes (unit_effect w name u)
     = (if yields_candidate (race w name) then js_inc (successes u) else successes u)"
  "failures (unit_effect w name u)
     = (if rejects (race w name) then js_inc (failures u) else failures u)"
  "averageResponseTime (unit_effect w name u)
     = (if yields_candidate (race w name)
        then js_div (js_add (js_mul (averageResponseTime u)
                                    (js_sub (js_inc (successes u)) (Num 1)))
                            (ms (elapsed w name)))
                    (js_inc (successes u))
        else averageResponseTime u)"
  by (auto simp: unit_effect_def record_success_def Let_def split: settled.splits option.splits)

lemma js_inc_Num: "js_inc (Num a) = Num (a + 1)"
  by (simp add: js_inc_def)

lemma finite_numE: "finite_num x \<Longrightarrow> \<exists>a. x = Num a"
  by (cases x) simp_all

lemma sum_list_shift:
  "(\<And>x. x \<in> set xs \<Longrightarrow> g x = f x + (if P x then 1 else 0)) \<Longrightarrow>
   sum_list (map g xs) = sum_list (map f xs) + (of_nat (length (filter P xs)) :: rat)"
  by (induction xs) auto

lemma counter_after_fanout:
  assumes "distinct names" and "name \<in> set names" and "finite_entry (fan_stats st) name"
  shows "counter calls (fan_stats (fanout w names st)) name
           = counter calls (fan_stats st) name + (if True then 1 else 0)"
    and "counter successes (fan_stats (fanout w names st)) name
           = counter successes (fan_stats st) name
             + (if yields_candidate (race w name) then 1 else 0)"
    and "counter failures (fan_stats (fanout w names st)) name
           = counter failures (fan_stats st) name + (if rejects (race w name) then 1 else 0)"
proof -
  from assms(3) obtain u where u: "lookup_usage (fan_stats st) name = Inr u"
    and fin: "finite_num (calls u)" "finite_num (successes u)" "finite_num (failures u)"
    by (auto simp: finite_entry_def split: sum.splits)
  have after: "lookup_usage (fan_stats (fanout w names st)) name = Inr (unit_effect w name u)"
    using fanout_lookup[OF assms(1), of w st name] assms(2) u by simp
  from fin obtain a b c where abc: "calls u = Num a" "successes u = Num b" "failures u = Num c"
    by (auto dest!: finite_numE)
  show "counter calls (fan_stats (fanout w names st)) name
           = counter calls (fan_stats st) name + (if True then 1 else 0)"
    using after u abc by (simp add: counter_def unit_effect_counters js_inc_Num)
  show "counter successes (fan_stats (fanout w names st)) name
           = counter successes (fan_stats st) name
             + (if yields_candidate (race w name) then 1 else 0)"
    using after u abc by (simp add: counter_def unit_effect_counters js_inc_Num)
  show "counter failures (fan_stats (fanout w names st)) name
           = counter failures (fan_stats st) name + (if rejects (race w name) then 1 else 0)"
    using after u abc by (simp add: counter_def unit_effect_counters js_inc_Num)
qed

lemma totals_after_fanout:
  assumes "distinct names" and "list_all (finite_entry (fan_stats st)) names"
  shows "total_of calls (fan_stats (fanout w names st)) names
           = total_of calls (fan_stats st) names + of_nat (length names)"
    and "total_of successes (fan_stats (fanout w names st)) names
           = total_of successes (fan_stats st) names
             + of_nat (length (filter (\<lambda>n. yields_candidate (race w n)) names))"
    and "total_of failures (fan_stats (fanout w names st)) names
           = total_of failures (fan_stats st) names
             + of_nat (length (filter (\<lambda>n. rejects (race w n)) names))"
proof -
  have fin: "finite_entry (fan_stats st) n" if "n \<in> set names" for n
    using assms(2) that by (simp add: list_all_iff)
  show "total_of calls (fan_stats (fanout w names st)) names
           = total_of calls (fan_stats st) names + of_nat (length names)"
    unfolding total_of_def
    using sum_list_shift[of names "counter calls (fan_stats (fanout w names st))"
            "counter calls (fan_stats st)" "\<lambda>n. True"]
          counter_after_fanout(1)[OF assms(1) _ fin, of _ w]
    by simp
  show "total_of successes (fan_stats (fanout w names st)) names
           = total_of successes (fan_stats st) names
             + of_nat (length (filter (\<lambda>n. yields_candidate (race w n)) names))"
    unfolding total_of_def
    by (rule sum_list_shift) (rule counter_after_fanout(2)[OF assms(1) _ fin])
  show "total_of failures (fan_stats (fanout w names st)) names
           = total_of failures (fan_stats st) names
             + of_nat (length (filter (\<lambda>n. rejects (race w n)) names))"
    unfolding total_of_def
    by (rule sum_list_shift) (rule counter_after_fanout(3)[OF assms(1) _ fin])
qed

lemma yields_not_rejects: "yields_candidate r \<Longrightarrow> \<not> rejects r"
  by (cases r rule: yields_candidate.cases) simp_all

lemma timeouts_and_successes:
  assumes "list_all (\<lambda>n. race w n = Timeout \<or> yields_candidate (race w n)) names"
  shows "length (filter (\<lambda>n. yields_candidate (race w n)) names)
           = length names - length (filter (\<lambda>n. race w n = Timeout) names)"
    and "filter (\<lambda>n. rejects (race w n)) names = filter (\<lambda>n. race w n = Timeout) names"
  using assms
  by (induction names) (auto simp: Timeout_def Suc_diff_le dest: yields_not_rejects)


lemma lookup_fresh:
  "name \<in> set apis \<Longrightarrow> lookup_usage (stats (constructor raw t)) name = Inr fresh_usage"
  by (auto simp: lookup_usage_def constructor_def apis_def)


text \<open>
  Claim C4, as amended. For a unit whose adapter has a statistics entry: the call counter
  is incremented whatever the outcome; the success counter exactly when the race produced
  a candidate; the failure counter exactly when the race rejected, by the timeout or by a
  thrown error, and not when the adapter returned \<^verbatim>\<open>null\<close>; the mean is recomputed only
  on success, as \<open>(mean * (n - 1) + sample) / n\<close> with \<open>n\<close> the incremented success
  counter. Over a fan-out on \<open>N\<close> distinct adapters with finite counters, the call
  counters grow by \<open>N\<close> in total, the success counters by the number of candidates and the
  failure counters by the number of rejections; when \<open>M\<close> units time out and the others
  produce a candidate, that is \<open>N - M\<close> and \<open>M\<close>.
\<close>

theorem unit_accounting:
  assumes "lookup_usage (fan_stats st) name = Inr u"
    and "distinct names" and "list_all (finite_entry (fan_stats st)) names"
  shows "(\<exists>u'. lookup_usage (fan_stats (run_unit w name st)) name = Inr u'
          \<and> calls u' = js_inc (calls u)
          \<and> successes u'
              = (if yields_candidate (race w name) then js_inc (successes u) else successes u)
          \<and> failures u'
              = (if rejects (race w name) then js_inc (failures u) else failures u)
          \<and> averageResponseTime u'
              = (if yields_candidate (race w name)
                 then js_div (js_add (js_mul (averageResponseTime u)
                                             (js_sub (js_inc (successes u)) (Num 1)))
                                     (ms (elapsed w name)))
                             (js_inc (successes u))
                 else averageResponseTime u))
    \<and> total_of calls (fan_stats (fanout w names st)) names
         = total_of calls (fan_stats st) names + of_nat (length names)
    \<and> total_of successes (fan_stats (fanout w names st)) names
         = total_of successes (fan_stats st) names
           + of_nat (length (filter (\<lambda>n. yields_candidate (race w n)) names))
    \<and> total_of failures (fan_stats (fanout w names st)) names
         = total_of failures (fan_stats st) names
           + of_nat (length (filter (\<lambda>n. rejects (race w n)) names))
    \<and> (list_all (\<lambda>n. race w n = Timeout \<or> yields_candidate (race w n)) names \<longrightarrow>
         total_of successes (fan_stats (fanout w names st)) names
           = total_of successes (fan_stats st) names
             + of_nat (length names - length (filter (\<lambda>n. race w n = Timeout) names))
         \<and> total_of failures (fan_stats (fanout w names st)) names
           = total_of failures (fan_stats st) names
             + of_nat (length (filter (\<lambda>n. race w n = Timeout) names)))"
proof -
  have unit: "lookup_usage (fan_stats (run_unit w name st)) name = Inr (unit_effect w name u)"
    using run_unit_registered[OF assms(1), of w] by simp
  note t = totals_after_fanout[OF assms(2,3), of w]
  have tm: "total_of successes (fan_stats (fanout w names st)) names
           = total_of successes (fan_stats st) names
             + of_nat (length names - length (filter (\<lambda>n. race w n = Timeout) names))
         \<and> total_of failures (fan_stats (fanout w names st)) names
           = total_of failures (fan_stats st) names
             + of_nat (length (filter (\<lambda>n. race w n = Timeout) names))"
    if "list_all (\<lambda>n. race w n = Timeout \<or> yields_candidate (race w n)) names"
    using t(2,3) timeouts_and_successes[OF that] by simp
  show ?thesis
    using unit t tm by (simp add: unit_effect_counters)
qed


text \<open>Three adapters of a new engine, one of which times out.\<close>

theorem unit_accounting_one_timeout:
  "lookup_usage (fan_stats (fan_start (stats (constructor no_options 0)))) ''snaptik''
      = Inr fresh_usage
   \<and> distinct [''snaptik'', ''tikwm'', ''tikdown'']
   \<and> list_all (finite_entry (fan_stats (fan_start (stats (constructor no_options 0)))))
        [''snaptik'', ''tikwm'', ''tikdown'']
   \<and> list_all (\<lambda>n. race (scenario tikwm_times_out) n = Timeout
                    \<or> yields_candidate (race (scenario tikwm_times_out) n))
        [''snaptik'', ''tikwm'', ''tikdown'']
   \<and> total_of calls (fan_stats (fanout (scenario tikwm_times_out)
          [''snaptik'', ''tikwm'', ''tikdown''] (fan_start (stats (constructor no_options 0)))))
        [''snaptik'', ''tikwm'', ''tikdown''] = 3
   \<and> total_of successes (fan_stats (fanout (scenario tikwm_times_out)
          [''snaptik'', ''tikwm'', ''tikdown''] (fan_start (stats (constructor no_options 0)))))
        [''snaptik'', ''tikwm'', ''tikdown''] = 2
   \<and> total_of failures (fan_stats (fanout (scenario tikwm_times_out)
          [''snaptik'', ''tikwm'', ''tikdown''] (fan_start (stats (constructor no_options 0)))))
        [''snaptik'', ''tikwm'', ''tikdown''] = 1"
proof -
  let ?st = "fan_start (stats (constructor no_options 0))"
  let ?w = "scenario tikwm_times_out"
  let ?ns = "[''snaptik'', ''tikwm'', ''tikdown'']"
  have fs: "fan_stats ?st = stats (constructor no_options 0)" by (simp add: fan_start_def)
  have l: "lookup_usage (fan_stats ?st) n = Inr fresh_usage" if "n \<in> set ?ns" for n
    unfolding fs using that by (intro lookup_fresh) (auto simp: apis_def)
  have h1: "lookup_usage (fan_stats ?st) ''snaptik'' = Inr fresh_usage" by (rule l) simp
  have h2: "distinct ?ns" by simp
  have h3: "list_all (finite_entry (fan_stats ?st)) ?ns"
    using l by (simp add: finite_entry_def fresh_usage_def)
  have h4: "list_all (\<lambda>n. race ?w n = Timeout \<or> yields_candidate (race ?w n)) ?ns"
    by (simp add: scenario_def tikwm_times_out_def Timeout_def)
  have z: "total_of f (fan_stats ?st) ?ns = 0" if "f fresh_usage = Num 0" for f
    using l that by (simp add: total_of_def counter_def)
  have f: "filter (\<lambda>n. race ?w n = Timeout) ?ns = [''tikwm'']"
    by (simp add: scenario_def tikwm_times_out_def Timeout_def)
  from unit_accounting[OF h1 h2 h3, of ?w] h4
  have "total_of calls (fan_stats (fanout ?w ?ns ?st)) ?ns = total_of calls (fan_stats ?st) ?ns + 3
      \<and> total_of successes (fan_stats (fanout ?w ?ns ?st)) ?ns = total_of successes (fan_stats ?st) ?ns + 2
      \<and> total_of failures (fan_stats (fanout ?w ?ns ?st)) ?ns = total_of failures (fan_stats ?st) ?ns + 1"
    by (simp add: scenario_def tikwm_times_out_def Timeout_def del: fanout.simps)
  then show ?thesis
    using h1 h2 h3 h4 z[of calls] z[of successes] z[of failures]
    by (simp add: fresh_usage_def del: fanout.simps)
qed


text \<open>
  Claim C4 as stated counts an absent result as a failure. A unit whose adapter returns
  \<^verbatim>\<open>null\<close> leaves the failure counter at zero.
\<close>

theorem absent_result_is_not_a_failure:
  "race (scenario (answers_from [])) ''snaptik'' = Fulfilled None
   \<and> lookup_usage (stats (constructor no_options 0)) ''snaptik''
       = Inr \<lparr>calls = Num 0, successes = Num 0, failures = Num 0, averageResponseTime = Num 0\<rparr>
   \<and> lookup_usage (fan_stats (run_unit (scenario (answers_from [])) ''snaptik''
                                (fan_start (stats (constructor no_options 0))))) ''snaptik''
       = Inr \<lparr>calls = Num 1, successes = Num 0, failures = Num 0, averageResponseTime = Num 0\<rparr>"
proof -
  let ?st = "fan_start (stats (constructor no_options 0))"
  have l: "lookup_usage (fan_stats ?st) ''snaptik'' = Inr fresh_usage"
    by (simp add: fan_start_def lookup_fresh apis_def)
  have r: "race (scenario (answers_from [])) ''snaptik'' = Fulfilled None"
    by (simp add: scenario_def answers_from_def)
  show ?thesis
    using run_unit_registered[OF l, of "scenario (answers_from [])"] l r
    by (simp add: unit_effect_def fresh_usage_def js_inc_def fan_start_def)
qed

subsection \<open>Resolution: the cache check and the winner\<close>

lemma getVideoMetadata_cases:
  "getVideoMetadata md5 w url e =
     (case cache_hit e (md5 url) (clock_lookup w) of
        Some d \<Rightarrow>
          \<lparr>outcome = Inr d,
           final = e\<lparr>stats := (stats e)\<lparr>cacheSaves :=
                      Some (js_inc (to_number (cacheSaves (stats e))))\<rparr>\<rparr>,
           invoked = []\<rparr>
      | None \<Rightarrow> resolve_fresh (md5 url) w e)"
  by (simp add: getVideoMetadata_def cache_hit_def Let_def split: option.splits)

lemma selectBestQuality_member:
  "selectBestQuality e xs = Inr c \<Longrightarrow> c \<in> set xs"
proof -
  assume a: "selectBestQuality e xs = Inr c"
  have "c \<in> set (sort_by compare_results xs)"
    using a
    by (auto simp: selectBestQuality_def Let_def find_Some_iff
        split: list.splits if_splits option.splits)
  then show ?thesis by (simp add: set_sort_by)
qed

lemma successfulResults_Cons:
  "successfulResults (r # rs)
     = (case r of Value (Some c) \<Rightarrow> [c] | Value None \<Rightarrow> [] | Failure ex \<Rightarrow> [])
       @ successfulResults rs"
  by (simp add: successfulResults_def)

lemma successfulResults_Nil: "successfulResults [] = []"
  by (simp add: successfulResults_def)

lemma unit_value_Some:
  assumes "unit_value s w name = Value (Some c)"
  shows "registered s name \<and> source c = name
       \<and> (\<exists>ans. race w name = Fulfilled (Some ans) \<and> c = adapter_result name ans)"
proof (cases "race w name")
  case (Rejected err)
  with assms show ?thesis by (simp add: unit_value_def split: if_splits)
next
  case (Fulfilled r)
  with assms show ?thesis
    by (cases r) (auto simp: unit_value_def adapter_result_def split: if_splits)
qed

lemma successfulResults_member:
  "c \<in> set (successfulResults (map (unit_value s w) names)) \<Longrightarrow>
   \<exists>ans. source c \<in> set names \<and> registered s (source c)
        \<and> race w (source c) = Fulfilled (Some ans) \<and> c = adapter_result (source c) ans"
proof (induction names)
  case Nil
  then show ?case by (simp add: successfulResults_Nil)
next
  case (Cons n ns)
  show ?case
  proof (cases "c \<in> set (successfulResults (map (unit_value s w) ns))")
    case True
    from Cons.IH[OF True] show ?thesis by auto
  next
    case False
    with Cons.prems have "unit_value s w n = Value (Some c)"
      by (auto simp: successfulResults_Cons split: unit_result.splits option.splits)
    from unit_value_Some[OF this] show ?thesis by auto
  qed
qed

lemma distinct_apiMethods: "distinct apiMethods"
  by (simp add: apiMethods_def)

lemma resolve_fresh_stats:
  "lookup_usage (stats (final (resolve_fresh key w e))) m =
     (if m \<in> set apiMethods then map_sum (\<lambda>ex. ex) (unit_effect w m) (lookup_usage (stats e) m)
      else lookup_usage (stats e) m)"
proof -
  let ?st = "\<lparr>fan_stats = stats e, fan_errors = [], fan_invoked = [], fan_results = []\<rparr>"
  have "stats (final (resolve_fresh key w e)) = fan_stats (fanout w apiMethods ?st)"
    by (simp add: resolve_fresh_def Let_def split: sum.splits)
  then show ?thesis
    using fanout_lookup[OF distinct_apiMethods, of w ?st m] by simp
qed

lemma resolve_fresh_winner:
  assumes "outcome (resolve_fresh key w e) = Inr best"
  shows "\<exists>ans. source best \<in> set apiMethods \<and> registered (stats e) (source best)
        \<and> race w (source best) = Fulfilled (Some ans)
        \<and> best = adapter_result (source best) ans"
proof -
  let ?st = "\<lparr>fan_stats = stats e, fan_errors = [], fan_invoked = [], fan_results = []\<rparr>"
  let ?found = "successfulResults (map (unit_value (stats e) w) apiMethods)"
  have "\<exists>e1. selectBestQuality e1 ?found = Inr best"
    using assms
    by (auto simp: resolve_fresh_def Let_def resolve_fresh_found split: if_splits sum.splits)
  then have "best \<in> set ?found" using selectBestQuality_member by blast
  then show ?thesis by (rule successfulResults_member)
qed

subsection \<open>The top-level call\<close>

text \<open>A call of \<^verbatim>\<open>downloadVideo\<close> returns only through its last statement.\<close>

lemma on_success_registered:
  "lookup_usage s api = Inr u \<Longrightarrow>
   \<exists>s'. on_success api duration s = Inr s'
      \<and> lookup_usage s' api = Inr (record_success duration u)
      \<and> (\<forall>m. m \<noteq> api \<longrightarrow> lookup_usage s' m = lookup_usage s m)"
  by (auto simp: on_success_def lookup_usage_def split: option.splits)

lemma download_catch_fails: "\<exists>ex'. outcome (download_catch w url ex e called) = Inl ex'"
  by (auto simp: download_catch_def Let_def split: sum.splits)

lemma downloadVideo_success:
  assumes "outcome (downloadVideo md5 w url e) = Inr r"
  shows "\<exists>metadata s3.
      outcome (getVideoMetadata md5 w url
        (e\<lparr>stats := (stats e)\<lparr>totalDownloads := js_inc (totalDownloads (stats e))\<rparr>\<rparr>))
        = Inr metadata
    \<and> truthy_str (videoUrl metadata)
    \<and> r = download_of metadata
    \<and> on_success (source metadata) (js_sub (ms (clock_end w)) (ms (clock_start w)))
         ((stats (final (getVideoMetadata md5 w url
            (e\<lparr>stats := (stats e)\<lparr>totalDownloads := js_inc (totalDownloads (stats e))\<rparr>\<rparr>))))
          \<lparr>successfulDownloads := js_inc (successfulDownloads (stats (final
             (getVideoMetadata md5 w url
               (e\<lparr>stats := (stats e)\<lparr>totalDownloads := js_inc (totalDownloads (stats e))\<rparr>\<rparr>))))),
           averageSpeed := js_div (js_add (js_mul
               (averageSpeed (stats (final (getVideoMetadata md5 w url
                  (e\<lparr>stats := (stats e)\<lparr>totalDownloads := js_inc (totalDownloads (stats e))\<rparr>\<rparr>)))))
               (js_sub (js_inc (successfulDownloads (stats (final (getVideoMetadata md5 w url
                  (e\<lparr>stats := (stats e)\<lparr>totalDownloads := js_inc (totalDownloads (stats e))\<rparr>\<rparr>))))))
                  (Num 1)))
               (js_sub (ms (clock_end w)) (ms (clock_start w))))
             (js_inc (successfulDownloads (stats (final (getVideoMetadata md5 w url
                  (e\<lparr>stats := (stats e)\<lparr>totalDownloads := js_inc (totalDownloads (stats e))\<rparr>\<rparr>))))))\<rparr>)
        = Inr s3
    \<and> stats (final (downloadVideo md5 w url e)) = s3
    \<and> invoked (downloadVideo md5 w url e) = invoked (getVideoMetadata md5 w url
        (e\<lparr>stats := (stats e)\<lparr>totalDownloads := js_inc (totalDownloads (stats e))\<rparr>\<rparr>))"
proof -
  let ?e0 = "e\<lparr>stats := (stats e)\<lparr>totalDownloads := js_inc (totalDownloads (stats e))\<rparr>\<rparr>"
  let ?r0 = "getVideoMetadata md5 w url ?e0"
  note dc = download_catch_fails[of w url]
  show ?thesis
  proof (cases "outcome ?r0")
    case (Inl ex)
    with assms dc[of ex "final ?r0" "invoked ?r0"] show ?thesis
      by (simp add: downloadVideo_def Let_def)
  next
    case (Inr m)
    show ?thesis
    proof (cases "truthy_str (videoUrl m)")
      case False
      with assms Inr dc[of "Error ''Could not get video URL''" "final ?r0" "invoked ?r0"]
      show ?thesis by (simp add: downloadVideo_def Let_def)
    next
      case True
      let ?s1 = "(stats (final ?r0))\<lparr>successfulDownloads :=
                             js_inc (successfulDownloads (stats (final ?r0)))\<rparr>"
      let ?d = "js_sub (ms (clock_end w)) (ms (clock_start w))"
      let ?s2 = "?s1\<lparr>averageSpeed :=
                             js_div (js_add (js_mul (averageSpeed ?s1)
                                                    (js_sub (successfulDownloads ?s1) (Num 1)))
                                            ?d)
                                    (successfulDownloads ?s1)\<rparr>"
      show ?thesis
      proof (cases "on_success (source m) ?d ?s2")
        case (Inl ex)
        with assms Inr True dc[of ex "(final ?r0)\<lparr>stats := ?s2\<rparr>" "invoked ?r0"]
        show ?thesis by (simp add: downloadVideo_def Let_def)
      next
        case s3: (Inr s3)
        with assms Inr True show ?thesis
          by (simp add: downloadVideo_def Let_def)
      qed
    qed
  qed
qed


lemma lookup_usage_cong: "apiUsage s' = apiUsage s \<Longrightarrow> lookup_usage s' m = lookup_usage s m"
  by (simp add: lookup_usage_def)

lemma downloadVideo_success_usage:
  assumes "outcome (downloadVideo md5 w url e) = Inr r"
    and "r0 = getVideoMetadata md5 w url
        (e\<lparr>stats := (stats e)\<lparr>totalDownloads := js_inc (totalDownloads (stats e))\<rparr>\<rparr>)"
    and "lookup_usage (stats (final r0)) (dl_source r) = Inr u0"
  shows "\<exists>metadata. outcome r0 = Inr metadata \<and> r = download_of metadata
      \<and> truthy_str (videoUrl metadata)
      \<and> invoked (downloadVideo md5 w url e) = invoked r0
      \<and> lookup_usage (stats (final (downloadVideo md5 w url e))) (dl_source r)
          = Inr (record_success (js_sub (ms (clock_end w)) (ms (clock_start w))) u0)"
proof -
  from downloadVideo_success[OF assms(1)] assms(2)
  obtain metadata s2 s3 where m: "outcome r0 = Inr metadata" "truthy_str (videoUrl metadata)"
      "r = download_of metadata"
    and os: "on_success (source metadata) (js_sub (ms (clock_end w)) (ms (clock_start w))) s2 = Inr s3"
    and s2: "apiUsage s2 = apiUsage (stats (final r0))"
    and s3: "stats (final (downloadVideo md5 w url e)) = s3"
    and inv: "invoked (downloadVideo md5 w url e) = invoked r0"
    by force
  have src: "dl_source r = source metadata" using m(3) by (simp add: download_of_def)
  have "lookup_usage s2 (source metadata) = Inr u0"
    using assms(3) src lookup_usage_cong[OF s2] by simp
  from on_success_registered[OF this, of "js_sub (ms (clock_end w)) (ms (clock_start w))"] os
  have "lookup_usage s3 (source metadata)
      = Inr (record_success (js_sub (ms (clock_end w)) (ms (clock_start w))) u0)"
    by auto
  then show ?thesis using m src s3 inv by simp
qed

lemma cache_hit_stats: "cache_hit (e\<lparr>stats := s\<rparr>) key now = cache_hit e key now"
  by (simp add: cache_hit_def split: option.splits)

lemma record_success_counters:
  "calls (record_success d u) = calls u"
  "failures (record_success d u) = failures u"
  "successes (record_success d u) = js_inc (successes u)"
  "averageResponseTime (record_success d u)
     = js_div (js_add (js_mul (averageResponseTime u) (js_sub (js_inc (successes u)) (Num 1))) d)
              (js_inc (successes u))"
  by (simp_all add: record_success_def Let_def)

lemma selectBestQuality_stats:
  "selectBestQuality (e\<lparr>stats := s\<rparr>) xs = selectBestQuality e xs"
  by (simp add: selectBestQuality_def Let_def split: list.splits option.splits)

lemma resolve_fresh_outcome:
  "outcome (resolve_fresh key w e) =
     (if successfulResults (map (unit_value (stats e) w) apiMethods) = []
      then Inl (Error (''All methods failed:'' @ [CHR 0x0A]
                        @ join_lines (concat (map (unit_lines (stats e) w) apiMethods))))
      else selectBestQuality e (successfulResults (map (unit_value (stats e) w) apiMethods)))"
  by (simp add: resolve_fresh_def Let_def resolve_fresh_found resolve_fresh_lines
        selectBestQuality_stats split: sum.splits)

lemma resolve_fresh_stats_fields:
  "stats (final (resolve_fresh key w e)) =
       (stats e)\<lparr>apiUsage := apiUsage (stats (final (resolve_fresh key w e)))\<rparr>"
proof -
  let ?st = "\<lparr>fan_stats = stats e, fan_errors = [], fan_invoked = [], fan_results = []\<rparr>"
  have s: "fan_stats (fanout w apiMethods ?st)
      = (stats e)\<lparr>apiUsage := apiUsage (fan_stats (fanout w apiMethods ?st))\<rparr>"
    using fanout_summary[of w apiMethods ?st] by simp
  have f: "stats (final (resolve_fresh key w e)) = fan_stats (fanout w apiMethods ?st)"
    by (simp add: resolve_fresh_def Let_def split: sum.splits)
  show ?thesis
    unfolding f by (rule s)
qed

lemma resolve_fresh_opts: "opts (final (resolve_fresh key w e)) = opts e"
  by (simp add: resolve_fresh_def Let_def split: sum.splits)

lemma resolve_fresh_cache:
  "cache (final (resolve_fresh key w e)) =
       (case outcome (resolve_fresh key w e) of
          Inl ex \<Rightarrow> cache e
        | Inr bestResult \<Rightarrow>
            if cacheResults (opts e)
            then (cache e)(key \<mapsto> \<lparr>timestamp = clock_store w, data = bestResult\<rparr>)
            else cache e)"
  by (simp add: resolve_fresh_def Let_def split: sum.splits)

lemma getVideoMetadata_final:
  "opts (final (getVideoMetadata md5 w url e)) = opts e"
  by (simp add: getVideoMetadata_cases resolve_fresh_opts split: option.splits)

lemma download_catch_final:
  "opts (final (download_catch w url ex e called)) = opts e
   \<and> cache (final (download_catch w url ex e called)) = cache e"
  by (simp add: download_catch_def Let_def split: sum.splits)

lemma downloadVideo_final:
  "opts (final (downloadVideo md5 w url e)) = opts e
   \<and> cache (final (downloadVideo md5 w url e)) =
       cache (final (getVideoMetadata md5 w url
         (e\<lparr>stats := (stats e)\<lparr>totalDownloads := js_inc (totalDownloads (stats e))\<rparr>\<rparr>)))"
  by (simp add: downloadVideo_def Let_def download_catch_final getVideoMetadata_final
        split: sum.splits)

lemma downloadVideo_returns:
  assumes "r0 = getVideoMetadata md5 w url
        (e\<lparr>stats := (stats e)\<lparr>totalDownloads := js_inc (totalDownloads (stats e))\<rparr>\<rparr>)"
    and "outcome r0 = Inr metadata" and "truthy_str (videoUrl metadata)"
    and "lookup_usage (stats (final r0)) (source metadata) = Inr u0"
  shows "outcome (downloadVideo md5 w url e) = Inr (download_of metadata)"
proof -
  let ?d = "js_sub (ms (clock_end w)) (ms (clock_start w))"
  let ?s1 = "(stats (final r0))\<lparr>successfulDownloads :=
                             js_inc (successfulDownloads (stats (final r0)))\<rparr>"
  let ?s2 = "?s1\<lparr>averageSpeed :=
                 js_div (js_add (js_mul (averageSpeed ?s1)
                                        (js_sub (successfulDownloads ?s1) (Num 1))) ?d)
                        (successfulDownloads ?s1)\<rparr>"
  have "lookup_usage ?s2 (source metadata) = Inr u0"
    using assms(4) by (simp add: lookup_usage_def)
  from on_success_registered[OF this, of ?d]
  obtain s3 where "on_success (source metadata) ?d ?s2 = Inr s3" by blast
  then show ?thesis
    using assms(2,3) unfolding assms(1)
    by (simp add: downloadVideo_def Let_def)
qed

text \<open>
  A new engine with default options resolves a reference that only \<^verbatim>\<open>snaptik\<close> can
  find: the call returns the \<^verbatim>\<open>snaptik\<close> candidate and caches it.
\<close>

lemma registered_apiUsage:
  assumes "apiUsage s' = apiUsage s"
  shows "registered s' = registered s" and "unit_value s' = unit_value s"
    and "unit_lines s' = unit_lines s"
  using assms
  by (simp_all add: registered_def unit_value_def unit_lines_def lookup_usage_def fun_eq_iff)

lemma snaptik_download:
  fixes url :: string and md5 :: "string \<Rightarrow> string"
  defines "e \<equiv> constructor no_options 0"
    and "w \<equiv> scenario (answers_from [''snaptik''])"
  shows "outcome (downloadVideo md5 w url e) = Inr (download_of (adapter_result ''snaptik'' a_video))"
    and "cache_hit e (md5 url) (clock_lookup w) = None"
    and "lookup_usage (stats e) ''snaptik'' = Inr fresh_usage"
    and "cache (final (downloadVideo md5 w url e)) (md5 url)
           = Some \<lparr>timestamp = 1300, data = adapter_result ''snaptik'' a_video\<rparr>"
proof -
  let ?e0 = "e\<lparr>stats := (stats e)\<lparr>totalDownloads := js_inc (totalDownloads (stats e))\<rparr>\<rparr>"
  let ?c = "adapter_result ''snaptik'' a_video"
  have au: "apiUsage (stats ?e0) = apiUsage (stats e)" by simp
  note ra = registered_apiUsage[OF au]
  show ch: "cache_hit e (md5 url) (clock_lookup w) = None"
    by (simp add: cache_hit_def e_def constructor_def)
  then have ch0: "cache_hit ?e0 (md5 url) (clock_lookup w) = None"
    by (simp add: cache_hit_stats)
  have r0: "getVideoMetadata md5 w url ?e0 = resolve_fresh (md5 url) w ?e0"
    using getVideoMetadata_cases[of md5 w url ?e0] ch0 by simp
  have found: "successfulResults (map (unit_value (stats ?e0) w) apiMethods) = [?c]"
    unfolding ra
    by (simp add: e_def w_def unit_value_def registered_constructor apis_def apiMethods_def
          successfulResults_def scenario_def answers_from_def)
  have sel: "selectBestQuality ?e0 [?c] = Inr ?c"
    by (simp add: selectBestQuality_def sort_by_def e_def constructor_def no_options_def)
  have out: "outcome (resolve_fresh (md5 url) w ?e0) = Inr ?c"
    using found sel by (simp add: resolve_fresh_outcome)
  have l: "lookup_usage (stats e) ''snaptik'' = Inr fresh_usage"
    unfolding e_def by (rule lookup_fresh) (simp add: apis_def)
  have l0: "lookup_usage (stats (final (resolve_fresh (md5 url) w ?e0))) ''snaptik''
      = Inr (unit_effect w ''snaptik'' fresh_usage)"
    using resolve_fresh_stats[of "md5 url" w ?e0 "''snaptik''"] l lookup_usage_cong[OF au, of "''snaptik''"]
    by (simp add: apiMethods_def)
  have tr: "truthy_str (videoUrl ?c)" by (simp add: adapter_result_def a_video_def)
  have src: "source ?c = ''snaptik''" by (simp add: adapter_result_def)
  have l0': "lookup_usage (stats (final (resolve_fresh (md5 url) w ?e0))) (source ?c)
      = Inr (unit_effect w ''snaptik'' fresh_usage)"
    unfolding src by (rule l0)
  have dl: "outcome (downloadVideo md5 w url e) = Inr (download_of ?c)"
    by (rule downloadVideo_returns[OF r0[symmetric] out tr l0'])
  have cr: "cacheResults (opts ?e0)" and cs: "clock_store w = 1300"
    by (simp_all add: e_def w_def constructor_def no_options_def scenario_def)
  have c2: "cache (final (resolve_fresh (md5 url) w ?e0)) (md5 url) = Some \<lparr>timestamp = 1300, data = ?c\<rparr>"
    unfolding resolve_fresh_cache out using cr cs by simp
  have c1: "cache (final (downloadVideo md5 w url e)) = cache (final (resolve_fresh (md5 url) w ?e0))"
    using downloadVideo_final[of md5 w url e] unfolding r0 by (rule conjunct2)
  show "outcome (downloadVideo md5 w url e) = Inr (download_of ?c)"
    by (rule dl)
  show "lookup_usage (stats e) ''snaptik'' = Inr fresh_usage"
    by (rule l)
  show "cache (final (downloadVideo md5 w url e)) (md5 url)
           = Some \<lparr>timestamp = 1300, data = ?c\<rparr>"
    unfolding c1 by (rule c2)
qed


text \<open>
  On a cache hit with the per-provider registry in place, \<^verbatim>\<open>downloadVideo\<close> returns the
  cached result.
\<close>

lemma downloadVideo_on_hit:
  assumes "cache_hit e (md5 url) (clock_lookup w) = Some d" and "truthy_str (videoUrl d)"
    and "lookup_usage (stats e) (source d) = Inr u"
  shows "outcome (downloadVideo md5 w url e) = Inr (download_of d)"
proof -
  let ?e0 = "e\<lparr>stats := (stats e)\<lparr>totalDownloads := js_inc (totalDownloads (stats e))\<rparr>\<rparr>"
  let ?hit = "\<lparr>outcome = Inr d,
           final = ?e0\<lparr>stats := (stats ?e0)\<lparr>cacheSaves :=
                      Some (js_inc (to_number (cacheSaves (stats ?e0))))\<rparr>\<rparr>,
           invoked = []\<rparr>"
  have ch: "cache_hit ?e0 (md5 url) (clock_lookup w) = Some d"
    using assms(1) by (simp add: cache_hit_stats)
  have r0: "?hit = getVideoMetadata md5 w url ?e0"
    using getVideoMetadata_cases[of md5 w url ?e0] ch by simp
  have o: "outcome ?hit = Inr d" by simp
  have l: "lookup_usage (stats (final ?hit)) (source d) = Inr u"
    using assms(3) by (simp add: lookup_usage_def)
  show ?thesis
    by (rule downloadVideo_returns[OF r0 o assms(2) l])
qed

subsection \<open>The success listener\<close>

text \<open>
  Claim C10. When \<^verbatim>\<open>downloadVideo\<close> returns a result whose source \<open>P\<close> has a
  statistics entry, the \<^verbatim>\<open>success\<close> listener increments the success counter of \<open>P\<close>
  and recomputes its mean with the duration of the whole call. On a cache hit no adapter
  is called and this is the only change to the entry: the call counter stays and the
  success counter grows by one. On a cache miss the unit of \<open>P\<close> has already counted one
  call and one success, so the success counter grows by two for one call.
\<close>

theorem success_listener_counts_again:
  assumes "outcome (downloadVideo md5 w url e) = Inr r"
    and "lookup_usage (stats e) (dl_source r) = Inr u"
  shows "(cache_hit e (md5 url) (clock_lookup w) \<noteq> None \<longrightarrow>
            invoked (downloadVideo md5 w url e) = []
          \<and> lookup_usage (stats (final (downloadVideo md5 w url e))) (dl_source r)
              = Inr (record_success (js_sub (ms (clock_end w)) (ms (clock_start w))) u)
          \<and> calls (record_success (js_sub (ms (clock_end w)) (ms (clock_start w))) u) = calls u
          \<and> successes (record_success (js_sub (ms (clock_end w)) (ms (clock_start w))) u)
              = js_inc (successes u))
       \<and> (cache_hit e (md5 url) (clock_lookup w) = None \<longrightarrow>
            dl_source r \<in> set (invoked (downloadVideo md5 w url e))
          \<and> yields_candidate (race w (dl_source r))
          \<and> lookup_usage (stats (final (downloadVideo md5 w url e))) (dl_source r)
              = Inr (record_success (js_sub (ms (clock_end w)) (ms (clock_start w)))
                      (record_success (ms (elapsed w (dl_source r)))
                         (u\<lparr>calls := js_inc (calls u)\<rparr>)))
          \<and> calls (record_success (js_sub (ms (clock_end w)) (ms (clock_start w)))
                      (record_success (ms (elapsed w (dl_source r)))
                         (u\<lparr>calls := js_inc (calls u)\<rparr>))) = js_inc (calls u)
          \<and> successes (record_success (js_sub (ms (clock_end w)) (ms (clock_start w)))
                      (record_success (ms (elapsed w (dl_source r)))
                         (u\<lparr>calls := js_inc (calls u)\<rparr>))) = js_inc (js_inc (successes u)))"
proof -
  let ?e0 = "e\<lparr>stats := (stats e)\<lparr>totalDownloads := js_inc (totalDownloads (stats e))\<rparr>\<rparr>"
  let ?r0 = "getVideoMetadata md5 w url ?e0"
  let ?P = "dl_source r"
  let ?D = "js_sub (ms (clock_end w)) (ms (clock_start w))"
  have ch: "cache_hit ?e0 (md5 url) (clock_lookup w) = cache_hit e (md5 url) (clock_lookup w)"
    by (rule cache_hit_stats)
  have l0: "lookup_usage (stats ?e0) m = lookup_usage (stats e) m" for m
    by (rule lookup_usage_cong) simp
  have hit: ?thesis if h: "cache_hit e (md5 url) (clock_lookup w) = Some d" for d
  proof -
    have r0: "?r0 = \<lparr>outcome = Inr d,
           final = ?e0\<lparr>stats := (stats ?e0)\<lparr>cacheSaves :=
                      Some (js_inc (to_number (cacheSaves (stats ?e0))))\<rparr>\<rparr>,
           invoked = []\<rparr>"
      using getVideoMetadata_cases[of md5 w url ?e0] h ch by simp
    have "lookup_usage (stats (final ?r0)) ?P = lookup_usage (stats ?e0) ?P"
      unfolding r0 by (intro lookup_usage_cong) simp
    then have u0: "lookup_usage (stats (final ?r0)) ?P = Inr u"
      using l0 assms(2) by simp
    from downloadVideo_success_usage[OF assms(1) refl u0]
    have i: "invoked (downloadVideo md5 w url e) = invoked ?r0"
      and l: "lookup_usage (stats (final (downloadVideo md5 w url e))) ?P
          = Inr (record_success ?D u)"
      by blast+
    have "invoked ?r0 = []" unfolding r0 by simp
    then show ?thesis using h i l by (simp add: record_success_counters)
  qed
  have miss: ?thesis if h: "cache_hit e (md5 url) (clock_lookup w) = None"
  proof -
    have r0: "?r0 = resolve_fresh (md5 url) w ?e0"
      using getVideoMetadata_cases[of md5 w url ?e0] h ch by simp
    obtain metadata where m: "outcome ?r0 = Inr metadata" "r = download_of metadata"
      using downloadVideo_success[OF assms(1)] by auto
    then have src: "source metadata = ?P" by (simp add: download_of_def)
    from resolve_fresh_winner[of "md5 url" w ?e0 metadata] m(1) r0 src
    obtain ans where win: "?P \<in> set apiMethods" "registered (stats ?e0) ?P"
        "race w ?P = Fulfilled (Some ans)"
      by auto
    have ue: "unit_effect w ?P u = record_success (ms (elapsed w ?P)) (u\<lparr>calls := js_inc (calls u)\<rparr>)"
      using win(3) by (simp add: unit_effect_def)
    have u0: "lookup_usage (stats (final ?r0)) ?P
        = Inr (record_success (ms (elapsed w ?P)) (u\<lparr>calls := js_inc (calls u)\<rparr>))"
      unfolding r0 using resolve_fresh_stats[of "md5 url" w ?e0 ?P] win(1) l0[of ?P] assms(2) ue
      by simp
    have inv: "?P \<in> set (invoked ?r0)"
      unfolding r0 using win(1,2) by (simp add: resolve_fresh_invoked)
    from downloadVideo_success_usage[OF assms(1) refl u0]
    have i: "invoked (downloadVideo md5 w url e) = invoked ?r0"
      and l: "lookup_usage (stats (final (downloadVideo md5 w url e))) ?P
          = Inr (record_success ?D (record_success (ms (elapsed w ?P))
                   (u\<lparr>calls := js_inc (calls u)\<rparr>)))"
      by blast+
    show ?thesis using h win(3) i l inv by (simp add: record_success_counters)
  qed
  show ?thesis
    using hit miss by (cases "cache_hit e (md5 url) (clock_lookup w)") auto
qed

text \<open>
  Two calls for one reference on a new engine. After the first, a cache miss resolved by
  \<^verbatim>\<open>snaptik\<close>, the entry of \<^verbatim>\<open>snaptik\<close> has one call and two successes, and its mean
  is that of the unit's 250 ms and the call's 300 ms. The second call is a cache hit: no
  adapter is called, the call counter stays at one and the success counter becomes three.
\<close>

theorem success_listener_two_downloads:
  "outcome first_call = Inr (download_of (adapter_result ''snaptik'' a_video))
   \<and> lookup_usage (stats (constructor no_options 0)) ''snaptik'' = Inr fresh_usage
   \<and> cache_hit (constructor no_options 0) sample_url 1000 = None
   \<and> lookup_usage (stats (final first_call)) ''snaptik''
     = Inr \<lparr>calls = Num 1, successes = Num 2, failures = Num 0, averageResponseTime = Num 275\<rparr>
   \<and> outcome second_call = Inr (download_of (adapter_result ''snaptik'' a_video))
   \<and> cache_hit (final first_call) sample_url 2000 = Some (adapter_result ''snaptik'' a_video)
   \<and> invoked second_call = []
   \<and> lookup_usage (stats (final second_call)) ''snaptik''
     = Inr \<lparr>calls = Num 1, successes = Num 3, failures = Num 0,
            averageResponseTime = Num (560 / 3)\<rparr>
   \<and> js_lt (Num 1) (Num 3)"
proof -
  let ?w = "scenario (answers_from [''snaptik''])"
  let ?w2 = "?w\<lparr>clock_start := 2000, clock_lookup := 2000, clock_end := 2010\<rparr>"
  let ?e = "constructor no_options 0"
  let ?c = "adapter_result ''snaptik'' a_video"
  let ?u1 = "\<lparr>calls = Num 1, successes = Num 2, failures = Num 0, averageResponseTime = Num 275\<rparr>"
  have d1: "outcome first_call = Inr (download_of ?c)"
    unfolding first_call_def by (rule snaptik_download(1))
  have d2: "cache_hit ?e sample_url (clock_lookup ?w) = None"
    by (rule snaptik_download(2)[of "\<lambda>u. u" sample_url])
  have d3: "lookup_usage (stats ?e) ''snaptik'' = Inr fresh_usage"
    by (rule snaptik_download(3))
  have d4: "cache (final first_call) sample_url = Some \<lparr>timestamp = 1300, data = ?c\<rparr>"
    unfolding first_call_def by (rule snaptik_download(4)[of "\<lambda>u. u" sample_url])
  have src: "dl_source (download_of ?c) = ''snaptik''" "source ?c = ''snaptik''"
    by (simp_all add: download_of_def adapter_result_def)
  have entry: "lookup_usage (stats ?e) (dl_source (download_of ?c)) = Inr fresh_usage"
    unfolding src by (rule d3)
  have ev: "record_success (js_sub (ms 1300) (ms 1000))
              (record_success (ms 250) (fresh_usage\<lparr>calls := js_inc (calls fresh_usage)\<rparr>)) = ?u1"
    by (simp add: record_success_def fresh_usage_def js_inc_def js_sub_def ms_def Let_def)
  have clk: "clock_end ?w = 1300" "clock_start ?w = 1000" "elapsed ?w ''snaptik'' = 250"
    "clock_lookup ?w = 1000"
    by (simp_all add: scenario_def)
  from success_listener_counts_again[OF d1[unfolded first_call_def] entry] d2
  have "lookup_usage (stats (final first_call)) ''snaptik''
      = Inr (record_success (js_sub (ms 1300) (ms 1000))
              (record_success (ms 250) (fresh_usage\<lparr>calls := js_inc (calls fresh_usage)\<rparr>)))"
    unfolding src clk first_call_def by simp
  then have l1: "lookup_usage (stats (final first_call)) ''snaptik'' = Inr ?u1"
    unfolding ev .
  have op: "opts (final first_call) = opts ?e"
    unfolding first_call_def using downloadVideo_final[of "\<lambda>u. u" ?w sample_url ?e]
    by (rule conjunct1)
  have cr: "cacheResults (opts ?e)" and age: "maxCacheAge (opts ?e) = Num 3600000"
    by (simp_all add: constructor_def no_options_def)
  have h: "cache_hit (final first_call) sample_url 2000 = Some ?c"
    unfolding cache_hit_def op d4 using cr age by (simp add: js_sub_def ms_def)
  have clk2: "clock_lookup ?w2 = 2000" "clock_end ?w2 = 2010" "clock_start ?w2 = 2000"
    by simp_all
  have h': "cache_hit (final first_call) ((\<lambda>u. u) sample_url) (clock_lookup ?w2) = Some ?c"
    unfolding clk2 using h by simp
  have tr: "truthy_str (videoUrl ?c)" by (simp add: adapter_result_def a_video_def)
  have l1': "lookup_usage (stats (final first_call)) (source ?c) = Inr ?u1"
    unfolding src by (rule l1)
  have o2: "outcome second_call = Inr (download_of ?c)"
    unfolding second_call_def by (rule downloadVideo_on_hit[where ?md5.0 = "\<lambda>u. u", OF h' tr l1'])
  have entry2: "lookup_usage (stats (final first_call)) (dl_source (download_of ?c)) = Inr ?u1"
    unfolding src by (rule l1)
  have ev2: "record_success (js_sub (ms 2010) (ms 2000)) ?u1
      = \<lparr>calls = Num 1, successes = Num 3, failures = Num 0, averageResponseTime = Num (560 / 3)\<rparr>"
    by (simp add: record_success_def js_inc_def js_sub_def ms_def Let_def)
  from success_listener_counts_again[OF o2[unfolded second_call_def] entry2] h'
  have "invoked second_call = []
      \<and> lookup_usage (stats (final second_call)) ''snaptik''
          = Inr (record_success (js_sub (ms 2010) (ms 2000)) ?u1)"
    unfolding src clk2 second_call_def by simp
  then have l2: "invoked second_call = []"
      "lookup_usage (stats (final second_call)) ''snaptik''
          = Inr \<lparr>calls = Num 1, successes = Num 3, failures = Num 0,
                  averageResponseTime = Num (560 / 3)\<rparr>"
    unfolding ev2 by simp_all
  show ?thesis
    using d1 d2 d3 l1 o2 h l2 unfolding clk by simp
qed

subsection \<open>Caching disabled\<close>

text \<open>
  With \<^verbatim>\<open>cacheResults\<close> false the cache check never hits, nothing is stored and the
  cache-save counter does not move: every resolution runs the fan-out.
\<close>

lemma registered_resolve_fresh:
  "registered (stats (final (resolve_fresh key w e))) m = registered (stats e) m"
  using resolve_fresh_stats[of key w e m]
  by (cases "lookup_usage (stats e) m") (auto simp: registered_def)

lemma caching_disabled:
  assumes "\<not> cacheResults (opts e)"
  shows "cache_hit e key now = None"
    and "getVideoMetadata md5 w url e = resolve_fresh (md5 url) w e"
    and "cache (final (getVideoMetadata md5 w url e)) = cache e"
    and "cacheSaves (stats (final (getVideoMetadata md5 w url e))) = cacheSaves (stats e)"
    and "invoked (getVideoMetadata md5 w url e) = filter (registered (stats e)) apiMethods"
proof -
  show h: "cache_hit e key now = None" for key now
    using assms by (simp add: cache_hit_def)
  show g: "getVideoMetadata md5 w url e = resolve_fresh (md5 url) w e"
    by (simp add: getVideoMetadata_cases h)
  show "cache (final (getVideoMetadata md5 w url e)) = cache e"
    unfolding g using assms by (simp add: resolve_fresh_cache split: sum.splits)
  have "cacheSaves (stats (final (resolve_fresh (md5 url) w e)))
      = cacheSaves ((stats e)\<lparr>apiUsage := apiUsage (stats (final (resolve_fresh (md5 url) w e)))\<rparr>)"
    using resolve_fresh_stats_fields[of "md5 url" w e] by (rule arg_cong)
  then show "cacheSaves (stats (final (getVideoMetadata md5 w url e))) = cacheSaves (stats e)"
    unfolding g by simp
  show "invoked (getVideoMetadata md5 w url e) = filter (registered (stats e)) apiMethods"
    unfolding g by (rule resolve_fresh_invoked)
qed


text \<open>
  Claim C8 concludes that with caching disabled two consecutive resolutions of one
  reference each invoke every adapter. Both resolutions run the whole fan-out and leave
  the cache empty, and each calls the same six adapters; the seventh,
  \<^verbatim>\<open>webscraping\<close>, is called by neither, because its unit throws before the call.
\<close>

theorem caching_disabled_skips_webscraping:
  "''webscraping'' \<in> set apiMethods
   \<and> \<not> cacheResults (opts (constructor (no_options\<lparr>raw_cacheResults := Some False\<rparr>) t))
   \<and> invoked (getVideoMetadata md5 w1 url
                (constructor (no_options\<lparr>raw_cacheResults := Some False\<rparr>) t))
       = [''snaptik'', ''tikwm'', ''tikdown'', ''savett'', ''ssstik'', ''dlpanda'']
   \<and> invoked (getVideoMetadata md5 w2 url
                (final (getVideoMetadata md5 w1 url
                   (constructor (no_options\<lparr>raw_cacheResults := Some False\<rparr>) t))))
       = [''snaptik'', ''tikwm'', ''tikdown'', ''savett'', ''ssstik'', ''dlpanda'']
   \<and> ''webscraping'' \<notin> set (invoked (getVideoMetadata md5 w2 url
                (final (getVideoMetadata md5 w1 url
                   (constructor (no_options\<lparr>raw_cacheResults := Some False\<rparr>) t)))))
   \<and> cache (final (getVideoMetadata md5 w2 url
                (final (getVideoMetadata md5 w1 url
                   (constructor (no_options\<lparr>raw_cacheResults := Some False\<rparr>) t)))))
       = Map.empty"
proof -
  let ?e = "constructor (no_options\<lparr>raw_cacheResults := Some False\<rparr>) t"
  let ?r1 = "getVideoMetadata md5 w1 url ?e"
  have off: "\<not> cacheResults (opts ?e)"
    by (simp add: constructor_def no_options_def)
  then have off1: "\<not> cacheResults (opts (final ?r1))"
    by (simp add: getVideoMetadata_final)
  note a = caching_disabled[OF off]
  note b = caching_disabled[OF off1]
  have g: "?r1 = resolve_fresh (md5 url) w1 ?e" by (rule a(2))
  have reg: "filter (registered (stats (final ?r1))) apiMethods
      = filter (registered (stats ?e)) apiMethods"
    unfolding g by (rule filter_cong) (simp_all add: registered_resolve_fresh)
  have six: "filter (registered (stats ?e)) apiMethods
      = [''snaptik'', ''tikwm'', ''tikdown'', ''savett'', ''ssstik'', ''dlpanda'']"
    by (rule registered_apiMethods)
  have c0: "cache ?e = Map.empty" by (simp add: constructor_def)
  have i1: "invoked ?r1 = [''snaptik'', ''tikwm'', ''tikdown'', ''savett'', ''ssstik'', ''dlpanda'']"
    unfolding a(5) by (rule six)
  have i2: "invoked (getVideoMetadata md5 w2 url (final ?r1))
       = [''snaptik'', ''tikwm'', ''tikdown'', ''savett'', ''ssstik'', ''dlpanda'']"
    unfolding b(5) reg by (rule six)
  have c2: "cache (final (getVideoMetadata md5 w2 url (final ?r1))) = Map.empty"
    unfolding b(3) a(3) by (rule c0)
  show ?thesis
    unfolding i1 i2 c2 using off by (simp add: apiMethods_def)
qed

subsection \<open>The result cache\<close>

text \<open>
  The cache check of \<^verbatim>\<open>getVideoMetadata\<close>, on every engine state with caching enabled
  and an entry under the key of the reference: the entry is returned, with no adapter
  called, exactly when its age is below \<^verbatim>\<open>maxCacheAge\<close>; otherwise the fan-out runs.
  An entry that has expired at the time of the lookup is a miss whether or not the sweep
  has removed it, since the sweep only removes entries.
\<close>

lemma resolve_fresh_success_invokes:
  assumes "outcome (resolve_fresh key w e) = Inr best"
  shows "source best \<in> set (invoked (resolve_fresh key w e))"
  using resolve_fresh_winner[OF assms] by (auto simp: resolve_fresh_invoked)

lemma getVideoMetadata_cache_lookup:
  assumes "cacheResults (opts e)" and "cache e (md5 url) = Some cached"
  shows "js_lt (js_sub (ms (clock_lookup w)) (ms (timestamp cached))) (maxCacheAge (opts e)) \<Longrightarrow>
           outcome (getVideoMetadata md5 w url e) = Inr (data cached)
         \<and> invoked (getVideoMetadata md5 w url e) = []
         \<and> cache (final (getVideoMetadata md5 w url e)) = cache e"
    and "\<not> js_lt (js_sub (ms (clock_lookup w)) (ms (timestamp cached))) (maxCacheAge (opts e)) \<Longrightarrow>
           getVideoMetadata md5 w url e = resolve_fresh (md5 url) w e
         \<and> invoked (getVideoMetadata md5 w url e) = filter (registered (stats e)) apiMethods"
    and "(\<exists>d. outcome (getVideoMetadata md5 w url e) = Inr d
              \<and> invoked (getVideoMetadata md5 w url e) = [])
         \<longleftrightarrow> js_lt (js_sub (ms (clock_lookup w)) (ms (timestamp cached))) (maxCacheAge (opts e))"
proof -
  let ?fresh = "js_lt (js_sub (ms (clock_lookup w)) (ms (timestamp cached))) (maxCacheAge (opts e))"
  have h: "cache_hit e (md5 url) (clock_lookup w) = (if ?fresh then Some (data cached) else None)"
    using assms by (simp add: cache_hit_def)
  show a: "?fresh \<Longrightarrow>
           outcome (getVideoMetadata md5 w url e) = Inr (data cached)
         \<and> invoked (getVideoMetadata md5 w url e) = []
         \<and> cache (final (getVideoMetadata md5 w url e)) = cache e"
    by (simp add: getVideoMetadata_cases h)
  show b: "\<not> ?fresh \<Longrightarrow>
           getVideoMetadata md5 w url e = resolve_fresh (md5 url) w e
         \<and> invoked (getVideoMetadata md5 w url e) = filter (registered (stats e)) apiMethods"
    by (simp add: getVideoMetadata_cases h resolve_fresh_invoked)
  show "(\<exists>d. outcome (getVideoMetadata md5 w url e) = Inr d
              \<and> invoked (getVideoMetadata md5 w url e) = []) \<longleftrightarrow> ?fresh"
  proof
    assume "\<exists>d. outcome (getVideoMetadata md5 w url e) = Inr d
              \<and> invoked (getVideoMetadata md5 w url e) = []"
    then obtain d where d: "outcome (getVideoMetadata md5 w url e) = Inr d"
      "invoked (getVideoMetadata md5 w url e) = []" by blast
    show ?fresh
    proof (rule ccontr)
      assume n: "\<not> ?fresh"
      from b[OF n] d have "outcome (resolve_fresh (md5 url) w e) = Inr d"
        "invoked (resolve_fresh (md5 url) w e) = []" by simp_all
      with resolve_fresh_success_invokes[of "md5 url" w e d] show False by simp
    qed
  next
    assume ?fresh
    from a[OF this] show "\<exists>d. outcome (getVideoMetadata md5 w url e) = Inr d
              \<and> invoked (getVideoMetadata md5 w url e) = []" by blast
  qed
qed

lemma cleanCache_entry:
  "opts (cleanCache t e) = opts e \<and> stats (cleanCache t e) = stats e
   \<and> (cache (cleanCache t e) key = None \<or> cache (cleanCache t e) key = cache e key)"
  by (simp add: cleanCache_def split: option.splits)

lemma cleanCache_keeps_miss:
  "cache_hit e key now = None \<Longrightarrow> cache_hit (cleanCache t e) key now = None"
  using cleanCache_entry[of t e key]
  by (auto simp: cache_hit_def split: option.splits if_splits)

lemma expired_entry_misses_after_sweep:
  assumes "cache e (md5 url) = Some cached"
    and "\<not> js_lt (js_sub (ms (clock_lookup w)) (ms (timestamp cached))) (maxCacheAge (opts e))"
  shows "getVideoMetadata md5 w url e = resolve_fresh (md5 url) w e"
    and "getVideoMetadata md5 w url (cleanCache t e) = resolve_fresh (md5 url) w (cleanCache t e)"
proof -
  have h: "cache_hit e (md5 url) (clock_lookup w) = None"
    using assms by (simp add: cache_hit_def)
  show "getVideoMetadata md5 w url e = resolve_fresh (md5 url) w e"
    by (simp add: getVideoMetadata_cases h)
  show "getVideoMetadata md5 w url (cleanCache t e) = resolve_fresh (md5 url) w (cleanCache t e)"
    by (simp add: getVideoMetadata_cases cleanCache_keeps_miss[OF h])
qed


text \<open>
  Claim C1 says that a top-level resolution, \<^verbatim>\<open>downloadVideo\<close> included, returns the
  cached result exactly when the entry is younger than \<^verbatim>\<open>maxCacheAge\<close>, and that after
  expiry the adapters are invoked again. A new engine resolves a reference through
  \<^verbatim>\<open>snaptik\<close> at time 1300 and caches the result; then \<^verbatim>\<open>resetStats\<close> is called. At
  time 2000 the entry is 700 ms old and the cache check finds it, but \<^verbatim>\<open>downloadVideo\<close>
  throws a \<^verbatim>\<open>TypeError\<close> from the \<^verbatim>\<open>success\<close> listener instead of returning it. At time
  3601300 the entry has expired, and the resolution calls no adapter at all and fails.
\<close>

theorem cached_result_unusable_after_resetStats:
  "outcome (downloadVideo md5 (scenario (answers_from [''snaptik''])) url (constructor no_options 0))
     = Inr (download_of (adapter_result ''snaptik'' a_video))
   \<and> cache_hit (resetStats (final (downloadVideo md5 (scenario (answers_from [''snaptik''])) url
                                     (constructor no_options 0))))
        (md5 url) 2000 = Some (adapter_result ''snaptik'' a_video)
   \<and> outcome (downloadVideo md5 ((scenario (answers_from [''snaptik'']))\<lparr>clock_lookup := 2000\<rparr>) url
        (resetStats (final (downloadVideo md5 (scenario (answers_from [''snaptik''])) url
                              (constructor no_options 0)))))
     = Inl undefined_read
   \<and> cache_hit (resetStats (final (downloadVideo md5 (scenario (answers_from [''snaptik''])) url
                                     (constructor no_options 0))))
        (md5 url) 3601300 = None
   \<and> invoked (getVideoMetadata md5 ((scenario (answers_from [''snaptik'']))\<lparr>clock_lookup := 3601300\<rparr>)
        url
        (resetStats (final (downloadVideo md5 (scenario (answers_from [''snaptik''])) url
                              (constructor no_options 0)))))
     = []
   \<and> outcome (getVideoMetadata md5 ((scenario (answers_from [''snaptik'']))\<lparr>clock_lookup := 3601300\<rparr>)
        url
        (resetStats (final (downloadVideo md5 (scenario (answers_from [''snaptik''])) url
                              (constructor no_options 0)))))
     = Inl (Error (''All methods failed:'' @ [CHR 0x0A]))"
proof -
  let ?w = "scenario (answers_from [''snaptik''])"
  let ?e = "constructor no_options 0"
  let ?c = "adapter_result ''snaptik'' a_video"
  let ?r1 = "downloadVideo md5 ?w url ?e"
  let ?e1 = "resetStats (final ?r1)"
  have o1: "outcome ?r1 = Inr (download_of ?c)" by (rule snaptik_download(1))
  have c1: "cache ?e1 (md5 url) = Some \<lparr>timestamp = 1300, data = ?c\<rparr>"
    using snaptik_download(4)[of md5 url] by (simp add: resetStats_def)
  have op: "opts ?e1 = opts ?e"
    using downloadVideo_final[of md5 ?w url ?e] by (simp add: resetStats_def)
  have cr: "cacheResults (opts ?e)" and age: "maxCacheAge (opts ?e) = Num 3600000"
    by (simp_all add: constructor_def no_options_def)
  have h1: "cache_hit ?e1 (md5 url) 2000 = Some ?c"
    unfolding cache_hit_def op c1 using cr age by (simp add: js_sub_def ms_def)
  have h2: "cache_hit ?e1 (md5 url) 3601300 = None"
    unfolding cache_hit_def op c1 using cr age by (simp add: js_sub_def ms_def)
  have au: "apiUsage (stats ?e1) = None" and er: "errors (stats ?e1) = None"
    by (simp_all add: resetStats_def)
  have o2: "outcome (downloadVideo md5 (?w\<lparr>clock_lookup := 2000\<rparr>) url ?e1) = Inl undefined_read"
    by (rule downloadVideo_missing[OF au er])
  have g3: "getVideoMetadata md5 (?w\<lparr>clock_lookup := 3601300\<rparr>) url ?e1
      = resolve_fresh (md5 url) (?w\<lparr>clock_lookup := 3601300\<rparr>) ?e1"
    using getVideoMetadata_cases[of md5 "?w\<lparr>clock_lookup := 3601300\<rparr>" url ?e1] h2 by simp
  have r3: "resolve_fresh (md5 url) (?w\<lparr>clock_lookup := 3601300\<rparr>) ?e1 =
     \<lparr>outcome = Inl (Error (''All methods failed:'' @ [CHR 0x0A])), final = ?e1, invoked = []\<rparr>"
    by (rule resolve_fresh_missing[OF au])
  show ?thesis
    unfolding g3 r3 using o1 h1 h2 o2 by simp
qed

end
